theory Spec2Isabelle
  imports Main
begin

section \<open>Python values at the two websockets\<close>

text \<open>
  Both relays call \<^verbatim>\<open>json.loads\<close> on every text frame and then read the result with
  \<^verbatim>\<open>.get\<close>, \<^verbatim>\<open>[...]\<close>, truth tests and \<^verbatim>\<open>==\<close>.  The values are modelled by the
  datatype below: \<open>JNull\<close> is \<^verbatim>\<open>None\<close>, \<open>JObj\<close> lists the items of a \<^verbatim>\<open>dict\<close> (keys
  distinct, as \<^verbatim>\<open>json.loads\<close> leaves them).  JSON numbers with a fraction or an
  exponent (Python floats) are not part of the model.  A Python \<^verbatim>\<open>str\<close> is a
  \<open>string\<close>; a character above 127 stands for non-ASCII text.  A \<^verbatim>\<open>bytes\<close> value
  is a list of characters as well, one per byte.
\<close>

datatype json =
    JNull
  | JBool bool
  | JInt int
  | JStr string
  | JArr "json list"
  | JObj "(string \<times> json) list"

text \<open>The exception classes that occur in \<^verbatim>\<open>bridge.py\<close> or are raised by what it calls.\<close>

datatype exc =
    CancelledError
  | ConnectionClosed
  | RuntimeError
  | WebSocketDisconnect
  | JSONDecodeError
  | KeyError
  | TypeError
  | ValueError
  | AttributeError
  | BinasciiError

text \<open>Truth value of an object, as \<^verbatim>\<open>if x\<close> and \<^verbatim>\<open>not x\<close> test it.\<close>

fun truthy :: "json \<Rightarrow> bool" where
  "truthy JNull = False"
| "truthy (JBool b) = b"
| "truthy (JInt n) = (n \<noteq> 0)"
| "truthy (JStr s) = (s \<noteq> [])"
| "truthy (JArr xs) = (xs \<noteq> [])"
| "truthy (JObj kvs) = (kvs \<noteq> [])"

text \<open>
  \<^verbatim>\<open>a == b\<close>.  Python identifies \<^verbatim>\<open>True\<close> with \<^verbatim>\<open>1\<close> and \<^verbatim>\<open>False\<close> with \<^verbatim>\<open>0\<close>.
  Two lists are equal when they have the same length and equal elements; two
  \<^verbatim>\<open>dict\<close>s when they have the same number of keys and every key of the first
  has an equal value in the second, in whatever order the items are.  Values of
  different types are unequal otherwise.
\<close>

fun py_eq :: "json \<Rightarrow> json \<Rightarrow> bool" where
  "py_eq JNull JNull = True"
| "py_eq (JBool a) (JBool b) = (a = b)"
| "py_eq (JBool a) (JInt n) = (n = (if a then 1 else 0))"
| "py_eq (JInt n) (JBool a) = (n = (if a then 1 else 0))"
| "py_eq (JInt m) (JInt n) = (m = n)"
| "py_eq (JStr s) (JStr t) = (s = t)"
| "py_eq (JArr xs) (JArr ys) = list_all2 py_eq xs ys"
| "py_eq (JObj kvs) (JObj kws) =
     (length kvs = length kws
      \<and> list_all (\<lambda>kv. case map_of kws (fst kv) of
                           None \<Rightarrow> False
                         | Some w \<Rightarrow> py_eq (snd kv) w) kvs)"
| "py_eq _ _ = False"

text \<open>\<^verbatim>\<open>d.get(k)\<close>: only a \<^verbatim>\<open>dict\<close> has the method.\<close>

fun py_get :: "json \<Rightarrow> string \<Rightarrow> exc + json" where
  "py_get (JObj kvs) k = Inr (case map_of kvs k of None \<Rightarrow> JNull | Some v \<Rightarrow> v)"
| "py_get _ k = Inl AttributeError"

text \<open>
  \<^verbatim>\<open>d[k]\<close> with a string key: \<^verbatim>\<open>KeyError\<close> on a \<^verbatim>\<open>dict\<close> without the key,
  \<^verbatim>\<open>TypeError\<close> on every other value.
\<close>

fun py_item :: "json \<Rightarrow> string \<Rightarrow> exc + json" where
  "py_item (JObj kvs) k = (case map_of kvs k of None \<Rightarrow> Inl KeyError | Some v \<Rightarrow> Inr v)"
| "py_item _ k = Inl TypeError"

text \<open>
  \<^verbatim>\<open>int(x)\<close>.  The conversion of a \<^verbatim>\<open>str\<close> is Python's own parser; it is the parameter
  \<open>int_of_str\<close>, which returns \<open>None\<close> where \<^verbatim>\<open>int\<close> raises \<^verbatim>\<open>ValueError\<close>.
\<close>

fun py_int :: "(string \<Rightarrow> int option) \<Rightarrow> json \<Rightarrow> exc + int" where
  "py_int int_of_str (JInt n) = Inr n"
| "py_int int_of_str (JBool b) = Inr (if b then 1 else 0)"
| "py_int int_of_str (JStr s) =
     (case int_of_str s of None \<Rightarrow> Inl ValueError | Some n \<Rightarrow> Inr n)"
| "py_int int_of_str _ = Inl TypeError"


section \<open>Base64 as \<^verbatim>\<open>base64.b64decode\<close> and \<^verbatim>\<open>base64.b64encode\<close> compute it\<close>

definition b64_alphabet :: string where
  "b64_alphabet = ''ABCDEFGHIJKLMNOPQRSTUVWXYZabcdefghijklmnopqrstuvwxyz0123456789+/''"

fun index_of :: "'a \<Rightarrow> 'a list \<Rightarrow> nat option" where
  "index_of x [] = None"
| "index_of x (y # ys) = (if x = y then Some 0 else map_option Suc (index_of x ys))"

definition table_b2a_base64 :: "nat \<Rightarrow> char" where
  "table_b2a_base64 n = b64_alphabet ! (n mod 64)"

definition table_a2b_base64 :: "char \<Rightarrow> nat option" where
  "table_a2b_base64 c = index_of c b64_alphabet"

text \<open>
  The encoder (\<^verbatim>\<open>binascii.b2a_base64\<close> without the newline): three bytes give four
  characters; one or two bytes left over are padded with \<^verbatim>\<open>=\<close>.
\<close>

fun b2a_base64 :: "char list \<Rightarrow> string" where
  "b2a_base64 [] = []"
| "b2a_base64 [a] =
     (let x = (of_char a :: nat) in
      [table_b2a_base64 (x div 4), table_b2a_base64 ((x mod 4) * 16), CHR ''='', CHR ''=''])"
| "b2a_base64 [a, b] =
     (let x = (of_char a :: nat); y = (of_char b :: nat) in
      [table_b2a_base64 (x div 4), table_b2a_base64 ((x mod 4) * 16 + y div 16),
       table_b2a_base64 ((y mod 16) * 4), CHR ''=''])"
| "b2a_base64 (a # b # c # rest) =
     (let x = (of_char a :: nat); y = (of_char b :: nat); z = (of_char c :: nat) in
      [table_b2a_base64 (x div 4), table_b2a_base64 ((x mod 4) * 16 + y div 16),
       table_b2a_base64 ((y mod 16) * 4 + z div 64), table_b2a_base64 (z mod 64)]
      @ b2a_base64 rest)"

text \<open>
  The decoder (\<^verbatim>\<open>binascii.a2b_base64\<close>, not in strict mode), a loop over the
  characters with the position in the current group of four (\<open>quad_pos\<close>), the bits
  left over from the previous character (\<open>leftchar\<close>), the number of pad characters
  seen since the last data character (\<open>pads\<close>) and the bytes written so far.  A
  character outside the alphabet is skipped; a pad that completes a group ends the
  decoding at once; input that ends inside a group is an error.
\<close>

fun a2b_base64 :: "nat \<Rightarrow> nat \<Rightarrow> nat \<Rightarrow> char list \<Rightarrow> string \<Rightarrow> exc + char list" where
  "a2b_base64 quad_pos leftchar pads bin [] =
     (if quad_pos \<noteq> 0 then Inl BinasciiError else Inr bin)"
| "a2b_base64 quad_pos leftchar pads bin (c # cs) =
     (if c = CHR ''='' then
        (if quad_pos \<ge> 2 \<and> quad_pos + (pads + 1) \<ge> 4 then Inr bin
         else a2b_base64 quad_pos leftchar (if quad_pos \<ge> 2 then pads + 1 else pads) bin cs)
      else
        (case table_a2b_base64 c of
           None \<Rightarrow> a2b_base64 quad_pos leftchar pads bin cs
         | Some this_ch \<Rightarrow>
             (if quad_pos = 0 then a2b_base64 1 this_ch 0 bin cs
              else if quad_pos = 1 then
                a2b_base64 2 (this_ch mod 16) 0
                  (bin @ [char_of (leftchar * 4 + this_ch div 16)]) cs
              else if quad_pos = 2 then
                a2b_base64 3 (this_ch mod 4) 0
                  (bin @ [char_of (leftchar * 16 + this_ch div 4)]) cs
              else
                a2b_base64 0 0 0 (bin @ [char_of (leftchar * 64 + this_ch)]) cs)))"

text \<open>
  \<^verbatim>\<open>base64.b64decode(x)\<close>: a \<^verbatim>\<open>str\<close> must be ASCII (\<^verbatim>\<open>ValueError\<close> otherwise), any
  value that is neither \<^verbatim>\<open>str\<close> nor bytes-like is a \<^verbatim>\<open>TypeError\<close>.
\<close>

fun b64decode :: "json \<Rightarrow> exc + char list" where
  "b64decode (JStr s) =
     (if list_ex (\<lambda>c. (of_char c :: nat) \<ge> 128) s then Inl ValueError
      else a2b_base64 0 0 0 [] s)"
| "b64decode _ = Inl TypeError"

definition b64encode :: "char list \<Rightarrow> string" where
  "b64encode bin = b2a_base64 bin"


section \<open>The two sockets\<close>

text \<open>
  The socket objects belong to the \<^verbatim>\<open>websockets\<close> and Starlette libraries.  The bridge
  uses four of their operations; each is modelled by its contract.  What the bridge
  writes to a socket is kept in the socket, in order, as the value that was
  serialised.
\<close>

datatype ws_state = CONNECTING | OPEN | CLOSING | CLOSED

record openai_socket =
  state :: ws_state
  sent :: "json list"

text \<open>
  The caller socket before \<^verbatim>\<open>accept\<close> (Starlette names this state \<^verbatim>\<open>CONNECTING\<close> as
  well), while it is connected, and after it is closed.
\<close>

datatype starlette_state = ACCEPTING | CONNECTED | DISCONNECTED

record caller_socket =
  application_state :: starlette_state
  sent_json :: "json list"

text \<open>
  A relay task as \<^verbatim>\<open>asyncio\<close> sees it.  \<open>Cancelling\<close> is a task that still runs
  and has been asked to stop; \<open>Failed\<close> holds the exception the relay raised.
\<close>

datatype task =
    Running
  | Cancelling
  | Finished
  | Failed exc
  | Cancelled


section \<open>The bridge\<close>

text \<open>
  The attributes of \<^verbatim>\<open>TwilioRealtimeBridge.__init__\<close>.  The settings are read for
  the connection request, the session update and logging only; logging is not
  modelled, so they do not appear.
\<close>

record bridge =
  websocket :: caller_socket
  openai_ws :: "openai_socket option"
  stream_sid :: json
  latest_media_timestamp :: int
  last_assistant_item :: json
  mark_queue :: "string list"
  response_start_timestamp_twilio :: "int option"
  tasks :: "task list"

definition init :: "caller_socket \<Rightarrow> bridge" where
  "init ws = \<lparr> websocket = ws, openai_ws = None, stream_sid = JNull,
     latest_media_timestamp = 0, last_assistant_item = JNull, mark_queue = [],
     response_start_timestamp_twilio = None, tasks = [] \<rparr>"

text \<open>
  A coroutine of the bridge returns the exception it raised, if any, and the bridge
  as it left it.
\<close>

type_synonym outcome = "exc option \<times> bridge"

text \<open>
  \<^verbatim>\<open>await self.openai_ws.send(json.dumps(m))\<close>: written when the connection is open,
  \<^verbatim>\<open>ConnectionClosed\<close> otherwise.
\<close>

definition openai_ws_send :: "json \<Rightarrow> bridge \<Rightarrow> outcome" where
  "openai_ws_send m s =
     (case openai_ws s of
        None \<Rightarrow> (Some AttributeError, s)
      | Some w \<Rightarrow>
          if state w = OPEN then (None, s\<lparr>openai_ws := Some (w\<lparr>sent := sent w @ [m]\<rparr>)\<rparr>)
          else (Some ConnectionClosed, s))"

text \<open>
  \<^verbatim>\<open>await self.websocket.send_json(m)\<close>: written when the socket is connected,
  \<^verbatim>\<open>RuntimeError\<close> before it is accepted and after it is closed.
\<close>

definition websocket_send_json :: "json \<Rightarrow> bridge \<Rightarrow> outcome" where
  "websocket_send_json m s =
     (let ws = websocket s in
      if application_state ws = CONNECTED
      then (None, s\<lparr>websocket := ws\<lparr>sent_json := sent_json ws @ [m]\<rparr>\<rparr>)
      else (Some RuntimeError, s))"

text \<open>
  Statements in sequence: an exception raised by the first ends the coroutine, the
  second runs otherwise.
\<close>

definition and_then :: "outcome \<Rightarrow> (bridge \<Rightarrow> outcome) \<Rightarrow> outcome" where
  "and_then r f = (case r of (Some e, s) \<Rightarrow> (Some e, s) | (None, s) \<Rightarrow> f s)"

subsection \<open>Outbound: \<^verbatim>\<open>_send_mark\<close>, \<^verbatim>\<open>_handle_audio_delta\<close>, \<^verbatim>\<open>_handle_speech_started_event\<close>\<close>

definition send_mark :: "bridge \<Rightarrow> outcome" where
  "send_mark s =
     (if \<not> truthy (stream_sid s) then (None, s)
      else
        and_then
          (websocket_send_json
             (JObj [(''event'', JStr ''mark''), (''streamSid'', stream_sid s),
                    (''mark'', JObj [(''name'', JStr ''responsePart'')])]) s)
          (\<lambda>s1. (None, s1\<lparr>mark_queue := mark_queue s1 @ [''responsePart'']\<rparr>)))"

text \<open>
  \<open>response\<close> is the \<^verbatim>\<open>dict\<close> of the event, given by its items.  Every exception of
  the \<^verbatim>\<open>try\<close> block is caught, logged, and ends the call with nothing done.
\<close>

definition handle_audio_delta :: "bridge \<Rightarrow> (string \<times> json) list \<Rightarrow> outcome" where
  "handle_audio_delta s response =
     (if \<not> truthy (stream_sid s) then (None, s)
      else
        (case py_item (JObj response) ''delta'' of
           Inl e \<Rightarrow> (None, s)
         | Inr delta \<Rightarrow>
            (case b64decode delta of
               Inl e \<Rightarrow> (None, s)
             | Inr decoded \<Rightarrow>
                and_then
                  (websocket_send_json
                     (JObj [(''event'', JStr ''media''), (''streamSid'', stream_sid s),
                            (''media'', JObj [(''payload'', JStr (b64encode decoded))])]) s)
                  (\<lambda>s1.
                     let item_id = (case map_of response ''item_id'' of
                                      None \<Rightarrow> JNull | Some v \<Rightarrow> v)
                     in send_mark
                          (if truthy item_id \<and> \<not> py_eq item_id (last_assistant_item s1)
                           then s1\<lparr>response_start_timestamp_twilio :=
                                      Some (latest_media_timestamp s1),
                                   last_assistant_item := item_id\<rparr>
                           else s1)))))"

definition truncate_event :: "json \<Rightarrow> int \<Rightarrow> json" where
  "truncate_event item elapsed_time =
     JObj [(''type'', JStr ''conversation.item.truncate''), (''item_id'', item),
           (''content_index'', JInt 0), (''audio_end_ms'', JInt elapsed_time)]"

definition handle_speech_started_event :: "bridge \<Rightarrow> outcome" where
  "handle_speech_started_event s =
     (case response_start_timestamp_twilio s of
        None \<Rightarrow> (None, s)
      | Some response_start \<Rightarrow>
         (if mark_queue s = [] then (None, s)
          else
            and_then
              (if truthy (last_assistant_item s) \<and> openai_ws s \<noteq> None
               then openai_ws_send
                      (truncate_event (last_assistant_item s)
                         (latest_media_timestamp s - response_start)) s
               else (None, s))
              (\<lambda>s1.
                 and_then
                   (websocket_send_json
                      (JObj [(''event'', JStr ''clear''), (''streamSid'', stream_sid s1)]) s1)
                   (\<lambda>s2. (None, s2\<lparr>mark_queue := [], last_assistant_item := JNull,
                                      response_start_timestamp_twilio := None\<rparr>)))))"

subsection \<open>The body of the loop of \<^verbatim>\<open>_send_to_twilio\<close>\<close>

text \<open>
  A text frame is given by what \<^verbatim>\<open>json.loads\<close> returns for it, \<open>None\<close> when
  \<^verbatim>\<open>json.loads\<close> raises.  The two \<^verbatim>\<open>if\<close> statements run one after the other.
\<close>

definition send_to_twilio_body :: "bridge \<Rightarrow> json option \<Rightarrow> outcome" where
  "send_to_twilio_body s openai_message =
     (case openai_message of
        None \<Rightarrow> (Some JSONDecodeError, s)
      | Some (JObj response) \<Rightarrow>
         (let event_type = (case map_of response ''type'' of None \<Rightarrow> JNull | Some v \<Rightarrow> v)
          in and_then
               (if event_type = JStr ''response.output_audio.delta''
                   \<and> map_of response ''delta'' \<noteq> None
                then handle_audio_delta s response else (None, s))
               (\<lambda>s1.
                  if event_type = JStr ''input_audio_buffer.speech_started''
                     \<and> truthy (last_assistant_item s1)
                  then handle_speech_started_event s1 else (None, s1)))
      | Some _ \<Rightarrow> (Some AttributeError, s))"

text \<open>
  The loop itself, over the frames that arrive until the connection ends:
  \<^verbatim>\<open>ConnectionClosed\<close> ends the relay quietly, any other exception is logged and
  raised again.
\<close>

fun send_to_twilio :: "bridge \<Rightarrow> json option list \<Rightarrow> outcome" where
  "send_to_twilio s [] = (None, s)"
| "send_to_twilio s (m # ms) =
     (case send_to_twilio_body s m of
        (None, s1) \<Rightarrow> send_to_twilio s1 ms
      | (Some e, s1) \<Rightarrow> (if e = ConnectionClosed then (None, s1) else (Some e, s1)))"

subsection \<open>The body of the loop of \<^verbatim>\<open>_receive_from_twilio\<close>\<close>

definition receive_from_twilio_body ::
  "(string \<Rightarrow> int option) \<Rightarrow> bridge \<Rightarrow> json option \<Rightarrow> outcome" where
  "receive_from_twilio_body int_of_str s message =
     (case message of
        None \<Rightarrow> (Some JSONDecodeError, s)
      | Some data \<Rightarrow>
         (case py_get data ''event'' of
            Inl e \<Rightarrow> (Some e, s)
          | Inr event \<Rightarrow>
             if event = JStr ''media'' \<and> openai_ws s = None then (Some AttributeError, s)
             else if event = JStr ''media'' \<and> map_option state (openai_ws s) = Some OPEN then
               (case py_item data ''media'' of
                  Inl e \<Rightarrow> (Some e, s)
                | Inr media \<Rightarrow>
                   (case py_item media ''timestamp'' of
                      Inl e \<Rightarrow> (Some e, s)
                    | Inr t \<Rightarrow>
                       (case py_int int_of_str t of
                          Inl e \<Rightarrow> (Some e, s)
                        | Inr n \<Rightarrow>
                           let s1 = s\<lparr>latest_media_timestamp := n\<rparr> in
                           (case py_item media ''payload'' of
                              Inl e \<Rightarrow> (Some e, s1)
                            | Inr payload \<Rightarrow>
                                openai_ws_send
                                  (JObj [(''type'', JStr ''input_audio_buffer.append''),
                                         (''audio'', payload)]) s1))))
             else if event = JStr ''start'' then
               (case py_item data ''start'' of
                  Inl e \<Rightarrow> (Some e, s)
                | Inr start \<Rightarrow>
                   (case py_item start ''streamSid'' of
                      Inl e \<Rightarrow> (Some e, s)
                    | Inr sid \<Rightarrow>
                       (None, s\<lparr>stream_sid := sid,
                                 response_start_timestamp_twilio := None,
                                 latest_media_timestamp := 0,
                                 last_assistant_item := JNull\<rparr>)))
             else if event = JStr ''mark'' then
               (if mark_queue s \<noteq> [] then (None, s\<lparr>mark_queue := tl (mark_queue s)\<rparr>)
                else (None, s))
             else (None, s)))"

text \<open>
  The loop itself, over the frames that arrive until the caller's stream ends.  A
  \<^verbatim>\<open>WebSocketDisconnect\<close> closes the connection to the speech service if it is
  open and ends the relay quietly; any other exception is logged and raised again.
\<close>

fun receive_from_twilio ::
  "(string \<Rightarrow> int option) \<Rightarrow> bridge \<Rightarrow> json option list \<Rightarrow> outcome" where
  "receive_from_twilio int_of_str s [] = (None, s)"
| "receive_from_twilio int_of_str s (m # ms) =
     (case receive_from_twilio_body int_of_str s m of
        (None, s1) \<Rightarrow> receive_from_twilio int_of_str s1 ms
      | (Some e, s1) \<Rightarrow>
          if e = WebSocketDisconnect then
            (None, (case openai_ws s1 of
                      None \<Rightarrow> s1
                    | Some w \<Rightarrow>
                        if state w = OPEN then s1\<lparr>openai_ws := Some (w\<lparr>state := CLOSED\<rparr>)\<rparr>
                        else s1))
          else (Some e, s1))"

subsection \<open>\<^verbatim>\<open>shutdown\<close>\<close>

text \<open>
  \<^verbatim>\<open>task.cancel()\<close> asks a running task to stop and does nothing to a task that is
  done.  \<^verbatim>\<open>await task\<close> returns when the task has finished, raises the task's own
  exception when it failed, and raises \<^verbatim>\<open>CancelledError\<close> when it was cancelled; no
  relay catches the cancellation.  Awaiting a task that runs and was not asked to stop
  does not return before the relay ends by itself, which the model leaves open as
  \<open>None\<close>.
\<close>

fun cancel :: "task \<Rightarrow> task" where
  "cancel Running = Cancelling"
| "cancel t = t"

fun await_task :: "task \<Rightarrow> (exc option \<times> task) option" where
  "await_task Running = None"
| "await_task Cancelling = Some (Some CancelledError, Cancelled)"
| "await_task Finished = Some (None, Finished)"
| "await_task (Failed e) = Some (Some e, Failed e)"
| "await_task Cancelled = Some (Some CancelledError, Cancelled)"

text \<open>
  The second loop of \<^verbatim>\<open>shutdown\<close>: each task is awaited under
  \<^verbatim>\<open>contextlib.suppress(asyncio.CancelledError)\<close>; any other exception leaves the loop.
\<close>

fun await_tasks :: "task list \<Rightarrow> (exc option \<times> task list) option" where
  "await_tasks [] = Some (None, [])"
| "await_tasks (t # ts) =
     (case await_task t of
        None \<Rightarrow> None
      | Some (r, t1) \<Rightarrow>
          if r = None \<or> r = Some CancelledError then
            (case await_tasks ts of
               None \<Rightarrow> None
             | Some (r2, ts1) \<Rightarrow> Some (r2, t1 # ts1))
          else Some (r, t1 # ts))"

text \<open>
  \<^verbatim>\<open>await self.openai_ws.close()\<close> closes the connection and raises nothing when it
  is closed already.  \<^verbatim>\<open>await self.websocket.close()\<close> closes the caller socket and
  raises \<^verbatim>\<open>RuntimeError\<close> when it is closed already.
\<close>

definition openai_ws_close :: "openai_socket \<Rightarrow> exc option \<times> openai_socket" where
  "openai_ws_close w = (None, w\<lparr>state := CLOSED\<rparr>)"

definition websocket_close :: "caller_socket \<Rightarrow> exc option \<times> caller_socket" where
  "websocket_close ws =
     (if application_state ws = DISCONNECTED then (Some RuntimeError, ws)
      else (None, ws\<lparr>application_state := DISCONNECTED\<rparr>))"

text \<open>
  The two closes at the end of \<^verbatim>\<open>shutdown\<close>, each under its
  \<^verbatim>\<open>contextlib.suppress\<close>.  Besides the exception and the bridge, the result holds
  the speech-service connection as the call left it, since the attribute itself is
  set to \<^verbatim>\<open>None\<close> after the close.
\<close>

definition close_sockets :: "bridge \<Rightarrow> exc option \<times> bridge \<times> openai_socket option" where
  "close_sockets s =
     (let closing = map_option openai_ws_close (openai_ws s);
          r1 = (case closing of
                  Some (Some e, w) \<Rightarrow> (if e = ConnectionClosed then None else Some e)
                | _ \<Rightarrow> None);
          conn = map_option snd closing
      in case r1 of
           Some e \<Rightarrow> (Some e, s, conn)
         | None \<Rightarrow>
            (case websocket_close (websocket s) of
               (r2, ws) \<Rightarrow>
                 ((if r2 = Some RuntimeError then None else r2),
                  s\<lparr>openai_ws := None, websocket := ws\<rparr>, conn)))"

text \<open>
  \<^verbatim>\<open>shutdown\<close>: cancel every task, await every task, clear the list, close both
  sockets.  An exception that leaves the await loop leaves \<^verbatim>\<open>shutdown\<close>, with
  nothing after it executed.
\<close>

definition shutdown :: "bridge \<Rightarrow> (exc option \<times> bridge \<times> openai_socket option) option" where
  "shutdown s =
     (case await_tasks (map cancel (tasks s)) of
        None \<Rightarrow> None
      | Some (Some e, ts) \<Rightarrow> Some (Some e, s\<lparr>tasks := ts\<rparr>, openai_ws s)
      | Some (None, ts) \<Rightarrow> Some (close_sockets (s\<lparr>tasks := []\<rparr>)))"


section \<open>The outbound relay between its awaits\<close>

text \<open>
  The two relays are tasks of one event loop: while one of them waits at an
  \<^verbatim>\<open>await\<close>, the other may run.  The inbound loop body changes the bridge before
  its only \<^verbatim>\<open>await\<close> and does nothing after it, so a pass through it is one
  step.  The outbound handlers go on after theirs, at four places:
  \<^item> in \<^verbatim>\<open>_handle_audio_delta\<close>, after the media frame is handed to the caller
    socket and before \<^verbatim>\<open>item_id\<close> is looked at;
  \<^item> in \<^verbatim>\<open>_send_mark\<close>, after the mark frame is handed over and before the mark is
    queued;
  \<^item> in \<^verbatim>\<open>_handle_speech_started_event\<close>, after the truncate event is handed to the
    speech service and before the clear frame is built;
  \<^item> in the same handler, after the clear frame is handed over and before the three
    attributes are reset.
  \<open>outbound\<close> says where the outbound relay waits; \<open>Media_sent\<close> keeps the event
  the handler is working on.
\<close>

datatype outbound =
    Idle
  | Media_sent "(string \<times> json) list"
  | Mark_sent
  | Truncate_sent
  | Clear_sent

text \<open>
  A piece of a handler returns what it raised, the bridge, and where the relay waits
  next; \<open>Idle\<close> when the handler has returned or raised.
\<close>

type_synonym piece = "outcome \<times> outbound"

definition waits_at :: "outcome \<Rightarrow> outbound \<Rightarrow> piece" where
  "waits_at r pc = (case r of (Some e, s) \<Rightarrow> ((Some e, s), Idle) | (None, s) \<Rightarrow> ((None, s), pc))"

text \<open>\<^verbatim>\<open>_send_mark\<close> up to its \<^verbatim>\<open>await\<close>, and the rest of it.\<close>

definition send_mark_begin :: "bridge \<Rightarrow> piece" where
  "send_mark_begin s =
     (if \<not> truthy (stream_sid s) then ((None, s), Idle)
      else
        waits_at
          (websocket_send_json
             (JObj [(''event'', JStr ''mark''), (''streamSid'', stream_sid s),
                    (''mark'', JObj [(''name'', JStr ''responsePart'')])]) s)
          Mark_sent)"

definition send_mark_resume :: "bridge \<Rightarrow> piece" where
  "send_mark_resume s = ((None, s\<lparr>mark_queue := mark_queue s @ [''responsePart'']\<rparr>), Idle)"

text \<open>
  \<^verbatim>\<open>_handle_audio_delta\<close> up to its \<^verbatim>\<open>await\<close>, and from there into
  \<^verbatim>\<open>_send_mark\<close>.
\<close>

definition handle_audio_delta_begin :: "bridge \<Rightarrow> (string \<times> json) list \<Rightarrow> piece" where
  "handle_audio_delta_begin s response =
     (if \<not> truthy (stream_sid s) then ((None, s), Idle)
      else
        (case py_item (JObj response) ''delta'' of
           Inl e \<Rightarrow> ((None, s), Idle)
         | Inr delta \<Rightarrow>
            (case b64decode delta of
               Inl e \<Rightarrow> ((None, s), Idle)
             | Inr decoded \<Rightarrow>
                waits_at
                  (websocket_send_json
                     (JObj [(''event'', JStr ''media''), (''streamSid'', stream_sid s),
                            (''media'', JObj [(''payload'', JStr (b64encode decoded))])]) s)
                  (Media_sent response))))"

definition handle_audio_delta_resume :: "bridge \<Rightarrow> (string \<times> json) list \<Rightarrow> piece" where
  "handle_audio_delta_resume s response =
     (let item_id = (case map_of response ''item_id'' of None \<Rightarrow> JNull | Some v \<Rightarrow> v)
      in send_mark_begin
           (if truthy item_id \<and> \<not> py_eq item_id (last_assistant_item s)
            then s\<lparr>response_start_timestamp_twilio := Some (latest_media_timestamp s),
                   last_assistant_item := item_id\<rparr>
            else s))"

text \<open>
  \<^verbatim>\<open>_handle_speech_started_event\<close>: the clear frame, built from \<^verbatim>\<open>stream_sid\<close> as it
  is then; the handler up to its first \<^verbatim>\<open>await\<close>, which is that of the truncate
  event when one is sent and that of the clear frame otherwise; and the reset.
\<close>

definition send_clear :: "bridge \<Rightarrow> piece" where
  "send_clear s =
     waits_at
       (websocket_send_json
          (JObj [(''event'', JStr ''clear''), (''streamSid'', stream_sid s)]) s)
       Clear_sent"

definition handle_speech_started_event_begin :: "bridge \<Rightarrow> piece" where
  "handle_speech_started_event_begin s =
     (case response_start_timestamp_twilio s of
        None \<Rightarrow> ((None, s), Idle)
      | Some response_start \<Rightarrow>
         (if mark_queue s = [] then ((None, s), Idle)
          else if truthy (last_assistant_item s) \<and> openai_ws s \<noteq> None
          then waits_at
                 (openai_ws_send
                    (truncate_event (last_assistant_item s)
                       (latest_media_timestamp s - response_start)) s)
                 Truncate_sent
          else send_clear s))"

definition handle_speech_started_event_resume :: "bridge \<Rightarrow> piece" where
  "handle_speech_started_event_resume s =
     ((None, s\<lparr>mark_queue := [], last_assistant_item := JNull,
                response_start_timestamp_twilio := None\<rparr>), Idle)"

text \<open>
  The body of the loop of \<^verbatim>\<open>_send_to_twilio\<close> up to the first \<^verbatim>\<open>await\<close> it reaches.
  An event has one type, so at most one of the two handlers is entered.
\<close>

definition send_to_twilio_begin :: "bridge \<Rightarrow> json option \<Rightarrow> piece" where
  "send_to_twilio_begin s openai_message =
     (case openai_message of
        None \<Rightarrow> ((Some JSONDecodeError, s), Idle)
      | Some (JObj response) \<Rightarrow>
         (let event_type = (case map_of response ''type'' of None \<Rightarrow> JNull | Some v \<Rightarrow> v)
          in if event_type = JStr ''response.output_audio.delta''
                \<and> map_of response ''delta'' \<noteq> None
             then handle_audio_delta_begin s response
             else if event_type = JStr ''input_audio_buffer.speech_started''
                     \<and> truthy (last_assistant_item s)
             then handle_speech_started_event_begin s
             else ((None, s), Idle))
      | Some _ \<Rightarrow> ((Some AttributeError, s), Idle))"

text \<open>The outbound relay goes on from where it waits.\<close>

fun resume :: "bridge \<Rightarrow> outbound \<Rightarrow> piece" where
  "resume s Idle = ((None, s), Idle)"
| "resume s (Media_sent response) = handle_audio_delta_resume s response"
| "resume s Mark_sent = send_mark_resume s"
| "resume s Truncate_sent = send_clear s"
| "resume s Clear_sent = handle_speech_started_event_resume s"

text \<open>A handler that begins and is resumed at once, with nothing in between.\<close>

fun uninterrupted :: "piece \<Rightarrow> piece" where
  "uninterrupted ((Some e, s), pc) = ((Some e, s), pc)"
| "uninterrupted ((None, s), pc) = resume s pc"


section \<open>Sequences of events\<close>

text \<open>
  What happens to the bridge is a sequence of three kinds of events: the inbound
  relay takes a frame from the caller and passes through its loop body; the
  outbound relay, when it waits for the next event of the speech service, takes one
  and runs up to the first \<^verbatim>\<open>await\<close>; the outbound relay goes on from the
  \<^verbatim>\<open>await\<close> where it waits.  A relay that has raised reads no further frame; \<open>run\<close>
  goes on regardless, so it covers every sequence the two relays can go through,
  and more.
\<close>

datatype event = Caller "json option" | Speech "json option" | Resume

fun step :: "(string \<Rightarrow> int option) \<Rightarrow> bridge \<times> outbound \<Rightarrow> event \<Rightarrow> piece" where
  "step int_of_str (s, pc) (Caller m) = (receive_from_twilio_body int_of_str s m, pc)"
| "step int_of_str (s, pc) (Speech m) =
     (if pc = Idle then send_to_twilio_begin s m else ((None, s), pc))"
| "step int_of_str (s, pc) Resume = resume s pc"

fun after :: "piece \<Rightarrow> bridge \<times> outbound" where
  "after ((r, s), pc) = (s, pc)"

fun run :: "(string \<Rightarrow> int option) \<Rightarrow> bridge \<times> outbound \<Rightarrow> event list \<Rightarrow> bridge \<times> outbound" where
  "run int_of_str c [] = c"
| "run int_of_str c (e # es) = run int_of_str (after (step int_of_str c e)) es"

text \<open>What has been written to the caller in a configuration.\<close>

definition caller_frames :: "bridge \<times> outbound \<Rightarrow> json list" where
  "caller_frames c = sent_json (websocket (fst c))"

text \<open>The values \<^verbatim>\<open>latest_media_timestamp\<close> takes, one after each caller frame.\<close>

fun latest_media_timestamps ::
  "(string \<Rightarrow> int option) \<Rightarrow> bridge \<Rightarrow> json option list \<Rightarrow> int list" where
  "latest_media_timestamps int_of_str s [] = []"
| "latest_media_timestamps int_of_str s (m # ms) =
     (let s1 = snd (receive_from_twilio_body int_of_str s m) in
      latest_media_timestamp s1 # latest_media_timestamps int_of_str s1 ms)"

text \<open>A caller frame \<^verbatim>\<open>{"event": "media", "media": {"timestamp": t, "payload": p}}\<close>.\<close>

definition media_frame :: "json \<Rightarrow> json \<Rightarrow> json" where
  "media_frame t p =
     JObj [(''event'', JStr ''media''), (''media'', JObj [(''timestamp'', t), (''payload'', p)])]"

text \<open>The \<^verbatim>\<open>streamSid\<close> entry of a frame written to the caller.\<close>

fun stream_sid_of :: "json \<Rightarrow> json" where
  "stream_sid_of (JObj kvs) = (case map_of kvs ''streamSid'' of None \<Rightarrow> JNull | Some v \<Rightarrow> v)"
| "stream_sid_of _ = JNull"

text \<open>An utterance is only ever current while the stream identifier is known.\<close>

definition bridge_inv :: "bridge \<Rightarrow> bool" where
  "bridge_inv s = (truthy (last_assistant_item s) \<longrightarrow> truthy (stream_sid s))"

text \<open>A caller frame whose \<^verbatim>\<open>event\<close> is \<^verbatim>\<open>start\<close>.\<close>

fun is_start :: "event \<Rightarrow> bool" where
  "is_start (Caller (Some data)) = (py_get data ''event'' = Inr (JStr ''start''))"
| "is_start _ = False"

text \<open>
  The value \<^verbatim>\<open>data["start"]["streamSid"]\<close> that a \<^verbatim>\<open>start\<close> frame puts into
  \<^verbatim>\<open>stream_sid\<close>; \<open>None\<close> for a frame that puts nothing there.
\<close>

definition new_stream_sid :: "json option \<Rightarrow> json option" where
  "new_stream_sid message =
     (case message of
        None \<Rightarrow> None
      | Some data \<Rightarrow>
         if py_get data ''event'' = Inr (JStr ''start'') then
           (case py_item data ''start'' of
              Inl e \<Rightarrow> None
            | Inr start \<Rightarrow>
               (case py_item start ''streamSid'' of Inl e \<Rightarrow> None | Inr sid \<Rightarrow> Some sid))
         else None)"

text \<open>Every \<^verbatim>\<open>start\<close> frame carries a stream identifier that is set and not empty.\<close>

fun proper_start :: "event \<Rightarrow> bool" where
  "proper_start (Caller m) = (case new_stream_sid m of None \<Rightarrow> True | Some sid \<Rightarrow> truthy sid)"
| "proper_start _ = True"

text \<open>A frame whose \<^verbatim>\<open>event\<close> is \<^verbatim>\<open>clear\<close>.\<close>

definition is_clear :: "json \<Rightarrow> bool" where
  "is_clear f = (py_get f ''event'' = Inr (JStr ''clear''))"

text \<open>
  The outbound relay waits at an \<^verbatim>\<open>await\<close> that it reached only with
  \<^verbatim>\<open>stream_sid\<close> known and after which it still uses \<^verbatim>\<open>stream_sid\<close> or sets
  \<^verbatim>\<open>last_assistant_item\<close>.
\<close>

fun holds_stream :: "outbound \<Rightarrow> bool" where
  "holds_stream (Media_sent response) = True"
| "holds_stream Truncate_sent = True"
| "holds_stream _ = False"


section \<open>Inputs and states used in the statements\<close>

text \<open>
  The timestamp a caller frame sets: \<^verbatim>\<open>int(data["media"]["timestamp"])\<close> of a frame
  whose \<^verbatim>\<open>event\<close> is \<^verbatim>\<open>media\<close>, \<open>None\<close> for every other frame and where the
  lookup or the conversion raises.
\<close>

definition media_timestamp :: "(string \<Rightarrow> int option) \<Rightarrow> json option \<Rightarrow> int option" where
  "media_timestamp int_of_str message =
     (case message of
        None \<Rightarrow> None
      | Some data \<Rightarrow>
         if py_get data ''event'' = Inr (JStr ''media'') then
           (case py_item data ''media'' of
              Inl e \<Rightarrow> None
            | Inr media \<Rightarrow>
               (case py_item media ''timestamp'' of
                  Inl e \<Rightarrow> None
                | Inr t \<Rightarrow>
                   (case py_int int_of_str t of Inl e \<Rightarrow> None | Inr n \<Rightarrow> Some n)))
         else None)"

text \<open>A task that ended with an exception of its own.\<close>

fun failed :: "task \<Rightarrow> bool" where
  "failed (Failed e) = (e \<noteq> CancelledError)"
| "failed _ = False"

text \<open>
  A bridge in the middle of utterance \<^verbatim>\<open>A\<close>, which began at caller time 500; the
  caller's audio has reached 1800 and one mark is not yet acknowledged.
\<close>

definition busy :: bridge where
  "busy = \<lparr> websocket = \<lparr>application_state = CONNECTED, sent_json = []\<rparr>,
            openai_ws = Some \<lparr>state = OPEN, sent = []\<rparr>,
            stream_sid = JStr ''MZ1'', latest_media_timestamp = 1800,
            last_assistant_item = JStr ''A'', mark_queue = [''responsePart''],
            response_start_timestamp_twilio = Some 500, tasks = [] \<rparr>"

text \<open>A bridge on a started stream at caller time 500, with no utterance so far.\<close>

definition quiet :: bridge where
  "quiet = \<lparr> websocket = \<lparr>application_state = CONNECTED, sent_json = []\<rparr>,
            openai_ws = Some \<lparr>state = OPEN, sent = []\<rparr>,
            stream_sid = JStr ''MZ1'', latest_media_timestamp = 500,
            last_assistant_item = JNull, mark_queue = [],
            response_start_timestamp_twilio = None, tasks = [] \<rparr>"

text \<open>
  The same bridge when the inbound relay has failed on a frame that is not JSON
  and the outbound relay still runs, as \<^verbatim>\<open>run\<close> leaves it when
  \<^verbatim>\<open>asyncio.gather\<close> raises.
\<close>

definition relay_failed :: bridge where
  "relay_failed = busy\<lparr>tasks := [Failed JSONDecodeError, Running]\<rparr>"

definition start_frame :: "json \<Rightarrow> json" where
  "start_frame sid = JObj [(''event'', JStr ''start''), (''start'', JObj [(''streamSid'', sid)])]"

definition mark_frame :: json where
  "mark_frame = JObj [(''event'', JStr ''mark''), (''mark'', JObj [(''name'', JStr ''responsePart'')])]"

definition speech_started :: "(string \<times> json) list" where
  "speech_started = [(''type'', JStr ''input_audio_buffer.speech_started'')]"

definition audio_delta :: "json \<Rightarrow> json \<Rightarrow> (string \<times> json) list" where
  "audio_delta delta item_id =
     [(''type'', JStr ''response.output_audio.delta''), (''delta'', delta), (''item_id'', item_id)]"


text \<open>
  Whenever an utterance is current, and whenever the outbound relay waits at an
  \<^verbatim>\<open>await\<close> after which it still relies on it, the stream identifier is known.
\<close>

definition config_inv :: "bridge \<times> outbound \<Rightarrow> bool" where
  "config_inv c =
     (truthy (last_assistant_item (fst c)) \<or> holds_stream (snd c) \<longrightarrow> truthy (stream_sid (fst c)))"

text \<open>No stream has started, no utterance is current and the outbound relay is idle.\<close>

definition calm :: "bridge \<times> outbound \<Rightarrow> bool" where
  "calm c = (\<not> truthy (stream_sid (fst c)) \<and> \<not> truthy (last_assistant_item (fst c))
             \<and> snd c = Idle)"

text \<open>
  What every piece \<open>p\<close> of an outbound handler does when it runs from the bridge
  \<open>s\<close> with the relay at \<open>pc\<close>: it leaves \<^verbatim>\<open>stream_sid\<close> alone; it only appends
  to what the caller was sent, clear frames and frames with a known identifier,
  the latter only when \<open>config_inv\<close> holds before, and nothing from a calm
  configuration; and it keeps \<open>config_inv\<close>.
\<close>

definition piece_ok :: "bridge \<Rightarrow> outbound \<Rightarrow> piece \<Rightarrow> bool" where
  "piece_ok s pc p =
     (stream_sid (fst (after p)) = stream_sid s
      \<and> (\<exists>new. sent_json (websocket (fst (after p))) = sent_json (websocket s) @ new
            \<and> list_all (\<lambda>f. is_clear f \<or> truthy (stream_sid_of f)) new
            \<and> (config_inv (s, pc) \<longrightarrow> list_all (\<lambda>f. truthy (stream_sid_of f)) new)
            \<and> (\<not> truthy (stream_sid s) \<and> \<not> truthy (last_assistant_item s) \<and> pc = Idle \<longrightarrow>
                  new = [] \<and> \<not> truthy (last_assistant_item (fst (after p)))
                  \<and> snd (after p) = Idle))
      \<and> (config_inv (s, pc) \<longrightarrow> config_inv (after p)))"

text \<open>
  The bridge as \<^verbatim>\<open>__init__\<close> leaves it, on a connected caller socket to which nothing
  has been written and with an open connection to the speech service; the outbound
  relay is idle.
\<close>

definition fresh :: "bridge \<times> outbound" where
  "fresh = ((init \<lparr>application_state = CONNECTED, sent_json = []\<rparr>)
              \<lparr>openai_ws := Some \<lparr>state = OPEN, sent = []\<rparr>\<rparr>, Idle)"


section \<open>Sequencing\<close>

lemma and_then_None [simp]: "and_then (None, s) f = f s"
  by (simp add: and_then_def)

lemma and_then_Some [simp]: "and_then (Some e, s) f = (Some e, s)"
  by (simp add: and_then_def)


section \<open>Decoding what was encoded\<close>

lemma distinct_alphabet: "distinct b64_alphabet"
  by (simp add: b64_alphabet_def)

lemma length_alphabet: "length b64_alphabet = 64"
  by (simp add: b64_alphabet_def)

lemma index_of_nth: "distinct xs \<Longrightarrow> n < length xs \<Longrightarrow> index_of (xs ! n) xs = Some n"
proof (induction xs arbitrary: n)
  case Nil
  then show ?case by simp
next
  case (Cons x xs)
  then show ?case by (cases n) (auto)
qed

lemma a2b_b2a: "n < 64 \<Longrightarrow> table_a2b_base64 (table_b2a_base64 n) = Some n"
  by (simp add: table_a2b_base64_def table_b2a_base64_def index_of_nth distinct_alphabet length_alphabet)

lemma b2a_not_pad: "table_b2a_base64 n \<noteq> CHR ''=''"
proof -
  have "CHR ''='' \<notin> set b64_alphabet" by (simp add: b64_alphabet_def)
  moreover have "table_b2a_base64 n \<in> set b64_alphabet"
    by (simp add: table_b2a_base64_def length_alphabet)
  ultimately show ?thesis by metis
qed

lemma a2b_step_data:
  assumes "n < 64"
  shows "a2b_base64 q l p bin (table_b2a_base64 n # cs) =
     (if q = 0 then a2b_base64 1 n 0 bin cs
      else if q = 1 then a2b_base64 2 (n mod 16) 0 (bin @ [char_of (l * 4 + n div 16)]) cs
      else if q = 2 then a2b_base64 3 (n mod 4) 0 (bin @ [char_of (l * 16 + n div 4)]) cs
      else a2b_base64 0 0 0 (bin @ [char_of (l * 64 + n)]) cs)"
  using assms by (simp add: b2a_not_pad a2b_b2a)

lemma a2b_step_pad:
  "a2b_base64 q l p bin (CHR ''='' # cs) =
     (if q \<ge> 2 \<and> q + (p + 1) \<ge> 4 then Inr bin
      else a2b_base64 q l (if q \<ge> 2 then p + 1 else p) bin cs)"
  by simp

lemma a2b_group3:
  fixes x y z :: nat
  assumes "x < 256" "y < 256" "z < 256"
  shows "a2b_base64 0 l p bin
           (table_b2a_base64 (x div 4) # table_b2a_base64 (x mod 4 * 16 + y div 16) #
            table_b2a_base64 (y mod 16 * 4 + z div 64) # table_b2a_base64 (z mod 64) # cs)
         = a2b_base64 0 0 0 (bin @ [char_of x, char_of y, char_of z]) cs"
proof -
  have b1: "x div 4 < 64" and b2: "x mod 4 * 16 + y div 16 < 64"
    and b3: "y mod 16 * 4 + z div 64 < 64" and b4: "z mod 64 < 64"
    using assms by auto
  have e1: "x div 4 * 4 + (x mod 4 * 16 + y div 16) div 16 = x" using assms by simp
  have e2: "(x mod 4 * 16 + y div 16) mod 16 * 16 + (y mod 16 * 4 + z div 64) div 4 = y"
    using assms by simp
  have e3: "(y mod 16 * 4 + z div 64) mod 4 * 64 + z mod 64 = z" using assms by simp
  show ?thesis
    unfolding a2b_step_data[OF b1] a2b_step_data[OF b2] a2b_step_data[OF b3] a2b_step_data[OF b4]
    by (simp only: e1 e2 e3 append_assoc append_Cons append_Nil if_True if_False refl
         One_nat_def[symmetric]) simp
qed

lemma a2b_group2:
  fixes x y :: nat
  assumes "x < 256" "y < 256"
  shows "a2b_base64 0 l p bin
           [table_b2a_base64 (x div 4), table_b2a_base64 (x mod 4 * 16 + y div 16),
            table_b2a_base64 (y mod 16 * 4), CHR ''='']
         = Inr (bin @ [char_of x, char_of y])"
proof -
  have b1: "x div 4 < 64" and b2: "x mod 4 * 16 + y div 16 < 64" and b3: "y mod 16 * 4 < 64"
    using assms by auto
  have e1: "x div 4 * 4 + (x mod 4 * 16 + y div 16) div 16 = x" using assms by simp
  have e2: "(x mod 4 * 16 + y div 16) mod 16 * 16 + y mod 16 * 4 div 4 = y"
    using assms by simp
  show ?thesis
    unfolding a2b_step_data[OF b1] a2b_step_data[OF b2] a2b_step_data[OF b3] a2b_step_pad
    by (simp only: e1 e2 append_assoc append_Cons append_Nil if_True if_False refl
         One_nat_def[symmetric]) simp
qed

lemma a2b_group1:
  fixes x :: nat
  assumes "x < 256"
  shows "a2b_base64 0 l p bin
           [table_b2a_base64 (x div 4), table_b2a_base64 (x mod 4 * 16), CHR ''='', CHR ''='']
         = Inr (bin @ [char_of x])"
proof -
  have b1: "x div 4 < 64" and b2: "x mod 4 * 16 < 64"
    using assms by auto
  have e1: "x div 4 * 4 + x mod 4 * 16 div 16 = x" by simp
  show ?thesis
    unfolding a2b_step_data[OF b1] a2b_step_data[OF b2] a2b_step_pad
    by (simp only: e1 append_assoc append_Cons append_Nil if_True if_False refl
         One_nat_def[symmetric]) simp
qed

lemma a2b_base64_b2a_base64:
  "a2b_base64 0 l p bin (b2a_base64 bs) = Inr (bin @ bs)"
proof (induction bs arbitrary: l p bin rule: b2a_base64.induct)
  case 1
  show ?case by simp
next
  case (2 a)
  show ?case using a2b_group1 [of "of_char a" l p bin]
    by (simp add: Let_def del: a2b_base64.simps)
next
  case (3 a b)
  show ?case using a2b_group2 [of "of_char a" "of_char b" l p bin]
    by (simp add: Let_def del: a2b_base64.simps)
next
  case (4 a b c rest)
  show ?case
    using a2b_group3 [of "of_char a" "of_char b" "of_char c" l p bin "b2a_base64 rest"]
    by (simp add: Let_def "4.IH" del: a2b_base64.simps)
qed

lemma b2a_in_alphabet: "table_b2a_base64 n \<in> set b64_alphabet"
  by (simp add: table_b2a_base64_def length_alphabet)

lemma alphabet_ascii: "c \<in> set b64_alphabet \<Longrightarrow> (of_char c :: nat) < 128"
  by (auto simp add: b64_alphabet_def)

lemma b2a_base64_ascii: "c \<in> set (b2a_base64 bs) \<Longrightarrow> (of_char c :: nat) < 128"
proof (induction bs rule: b2a_base64.induct)
  case 1
  then show ?case by simp
next
  case (2 a)
  then show ?case using alphabet_ascii [OF b2a_in_alphabet] by (auto simp add: Let_def)
next
  case (3 a b)
  then show ?case using alphabet_ascii [OF b2a_in_alphabet] by (auto simp add: Let_def)
next
  case (4 a b c rest)
  then show ?case using alphabet_ascii [OF b2a_in_alphabet] by (auto simp add: Let_def)
qed

lemma b64decode_b64encode: "b64decode (JStr (b64encode bs)) = Inr bs"
proof -
  have "\<not> list_ex (\<lambda>c. (of_char c :: nat) \<ge> 128) (b2a_base64 bs)"
    using b2a_base64_ascii [of _ bs] by (force simp add: list_ex_iff not_le)
  then show ?thesis
    using a2b_base64_b2a_base64 [of 0 0 "[]" bs] by (simp add: b64encode_def)
qed


section \<open>The inbound relay\<close>

text \<open>
  C6.  Whatever the bridge held before, a \<^verbatim>\<open>start\<close> frame that carries a
  \<^verbatim>\<open>streamSid\<close> stores it, sets \<^verbatim>\<open>latest_media_timestamp\<close> to 0 and sets
  \<^verbatim>\<open>last_assistant_item\<close> and \<^verbatim>\<open>response_start_timestamp_twilio\<close> to \<^verbatim>\<open>None\<close>;
  nothing else changes and nothing is raised.
\<close>

theorem start_event_resets:
  assumes "py_get data ''event'' = Inr (JStr ''start'')"
    and "py_item data ''start'' = Inr start"
    and "py_item start ''streamSid'' = Inr sid"
  shows "receive_from_twilio_body int_of_str s (Some data) =
           (None, s\<lparr>stream_sid := sid, response_start_timestamp_twilio := None,
                     latest_media_timestamp := 0, last_assistant_item := JNull\<rparr>)"
  using assms by (simp add: receive_from_twilio_body_def)

text \<open>C6 on the bridge \<open>busy\<close>, when a second stream \<^verbatim>\<open>MZ2\<close> starts.\<close>

theorem start_event_resets_witness:
  "receive_from_twilio_body (\<lambda>x. None) busy (Some (start_frame (JStr ''MZ2''))) =
     (None, busy\<lparr>stream_sid := JStr ''MZ2'', response_start_timestamp_twilio := None,
                  latest_media_timestamp := 0, last_assistant_item := JNull\<rparr>)"
  using start_event_resets [of "start_frame (JStr ''MZ2'')"
      "JObj [(''streamSid'', JStr ''MZ2'')]" "JStr ''MZ2''" "\<lambda>x. None" busy]
  by (simp add: start_frame_def)

lemma media_step:
  assumes "openai_ws s = Some w" and "state w = OPEN"
    and "media_timestamp int_of_str m = Some n"
  shows "latest_media_timestamp (snd (receive_from_twilio_body int_of_str s m)) = n
       \<and> map_option state (openai_ws (snd (receive_from_twilio_body int_of_str s m))) = Some OPEN"
proof -
  from assms(3) obtain data media t where d: "m = Some data"
    "py_get data ''event'' = Inr (JStr ''media'')" "py_item data ''media'' = Inr media"
    "py_item media ''timestamp'' = Inr t" "py_int int_of_str t = Inr n"
    by (auto simp add: media_timestamp_def split: option.splits sum.splits if_splits)
  show ?thesis
    by (cases "py_item media ''payload''")
      (simp_all add: receive_from_twilio_body_def openai_ws_send_def Let_def d assms(1,2))
qed

lemma media_steps:
  "map_option state (openai_ws s) = Some OPEN \<Longrightarrow>
   map (media_timestamp int_of_str) ms = map Some ns \<Longrightarrow>
   latest_media_timestamps int_of_str s ms = ns"
proof (induction ms arbitrary: s ns)
  case Nil
  then show ?case by simp
next
  case (Cons m ms)
  from Cons.prems(2) obtain n ns1 where ns: "ns = n # ns1"
    and m: "media_timestamp int_of_str m = Some n"
    and rest: "map (media_timestamp int_of_str) ms = map Some ns1"
    by (cases ns) auto
  from Cons.prems(1) obtain w where w: "openai_ws s = Some w" "state w = OPEN"
    by (cases "openai_ws s") auto
  note st = media_step [OF w m]
  have "latest_media_timestamps int_of_str (snd (receive_from_twilio_body int_of_str s m)) ms = ns1"
    using Cons.IH [OF _ rest] st by simp
  with st ns show ?case by (simp add: Let_def)
qed

text \<open>
  C7, as the code has it.  While the connection to the speech service is open, after
  each \<^verbatim>\<open>media\<close> frame \<^verbatim>\<open>latest_media_timestamp\<close> is the \<^verbatim>\<open>int\<close> of that frame's
  timestamp.  The bridge neither orders nor clamps the values: they are
  non-decreasing exactly when the timestamps of the frames are.
\<close>

theorem latest_follows_media_timestamps:
  assumes "map_option state (openai_ws s) = Some OPEN"
    and "map (media_timestamp int_of_str) ms = map Some ns"
  shows "latest_media_timestamps int_of_str s ms = ns
       \<and> sorted (latest_media_timestamps int_of_str s ms) = sorted ns"
  using media_steps [OF assms] by simp

text \<open>C7 on two \<^verbatim>\<open>media\<close> frames with the timestamps 500 and 1800.\<close>

theorem latest_follows_media_timestamps_witness:
  "latest_media_timestamps (\<lambda>x. None) quiet
     [Some (media_frame (JInt 500) (JStr ''QUJD'')), Some (media_frame (JInt 1800) (JStr ''QUJD''))]
     = [500, 1800]
   \<and> sorted (latest_media_timestamps (\<lambda>x. None) quiet
     [Some (media_frame (JInt 500) (JStr ''QUJD'')), Some (media_frame (JInt 1800) (JStr ''QUJD''))])"
  using latest_follows_media_timestamps [of quiet "\<lambda>x. None"
      "[Some (media_frame (JInt 500) (JStr ''QUJD'')), Some (media_frame (JInt 1800) (JStr ''QUJD''))]"
      "[500, 1800]"]
  by (simp add: quiet_def media_frame_def media_timestamp_def)

text \<open>
  C7 as the specification states it fails: a \<^verbatim>\<open>media\<close> frame with timestamp 500
  followed, in the same stream, by one with timestamp 300 takes
  \<^verbatim>\<open>latest_media_timestamp\<close> from 500 down to 300.
\<close>

theorem latest_not_monotone:
  "latest_media_timestamps (\<lambda>x. None) quiet
     [Some (media_frame (JInt 500) (JStr ''QUJD'')), Some (media_frame (JInt 300) (JStr ''QUJD''))]
     = [500, 300]
   \<and> \<not> sorted (latest_media_timestamps (\<lambda>x. None) quiet
     [Some (media_frame (JInt 500) (JStr ''QUJD'')), Some (media_frame (JInt 300) (JStr ''QUJD''))])"
  by (simp add: quiet_def media_frame_def receive_from_twilio_body_def openai_ws_send_def Let_def)


section \<open>The outbound relay\<close>

text \<open>
  C9.  An audio delta whose payload does not decode is dropped: the pass through the
  loop body raises nothing and leaves the whole bridge as it was (no frame written to
  either socket, \<^verbatim>\<open>mark_queue\<close>, \<^verbatim>\<open>last_assistant_item\<close> and
  \<^verbatim>\<open>response_start_timestamp_twilio\<close> unchanged), and the relay goes on with the
  events that follow.
\<close>

theorem undecodable_delta_dropped:
  assumes "map_of response ''type'' = Some (JStr ''response.output_audio.delta'')"
    and "map_of response ''delta'' = Some delta"
    and "b64decode delta = Inl e"
  shows "send_to_twilio_body s (Some (JObj response)) = (None, s)
       \<and> send_to_twilio s (Some (JObj response) # rest) = send_to_twilio s rest"
proof -
  have "send_to_twilio_body s (Some (JObj response)) = (None, s)"
    using assms by (simp add: send_to_twilio_body_def handle_audio_delta_def Let_def)
  then show ?thesis by simp
qed

text \<open>C9 on a payload of five data characters, which is one too many.\<close>

theorem undecodable_delta_dropped_witness:
  "b64decode (JStr ''QUJDR'') = Inl BinasciiError
   \<and> send_to_twilio_body quiet (Some (JObj (audio_delta (JStr ''QUJDR'') (JStr ''B'')))) = (None, quiet)
   \<and> send_to_twilio quiet [Some (JObj (audio_delta (JStr ''QUJDR'') (JStr ''B'')))]
       = send_to_twilio quiet []"
proof -
  have d: "b64decode (JStr ''QUJDR'') = Inl BinasciiError" by code_simp
  show ?thesis
    using d undecodable_delta_dropped [of "audio_delta (JStr ''QUJDR'') (JStr ''B'')"
        "JStr ''QUJDR''" BinasciiError quiet "[]"]
    by (simp add: audio_delta_def)
qed

text \<open>
  C5, as the code has it.  Take an audio delta that arrives while \<^verbatim>\<open>stream_sid\<close>
  is known, whose payload decodes and whose media frame the caller socket accepts,
  and whose \<^verbatim>\<open>item_id\<close> is present and true as a condition (not \<^verbatim>\<open>None\<close>, not
  empty).  If the \<^verbatim>\<open>item_id\<close> is not equal to \<^verbatim>\<open>last_assistant_item\<close>, a pass
  through the loop body with nothing in between sets
  \<^verbatim>\<open>response_start_timestamp_twilio\<close> to the \<^verbatim>\<open>latest_media_timestamp\<close> of that
  moment and \<^verbatim>\<open>last_assistant_item\<close> to the \<^verbatim>\<open>item_id\<close>.  Taken at its
  \<^verbatim>\<open>await\<close>: the handler waits once the media frame is handed over, and when it
  goes on, in whatever bridge \<open>s1\<close> the inbound relay has left meanwhile, it
  sets the two attributes from \<open>s1\<close> in the same way.
\<close>

theorem new_item_records_start:
  assumes "map_of response ''type'' = Some (JStr ''response.output_audio.delta'')"
    and "map_of response ''delta'' = Some delta"
    and "b64decode delta = Inr decoded"
    and "truthy (stream_sid s)"
    and "application_state (websocket s) = CONNECTED"
    and "map_of response ''item_id'' = Some item_id"
    and "truthy item_id"
  shows "(\<not> py_eq item_id (last_assistant_item s) \<longrightarrow>
            fst (send_to_twilio_body s (Some (JObj response))) = None
          \<and> response_start_timestamp_twilio (snd (send_to_twilio_body s (Some (JObj response))))
              = Some (latest_media_timestamp s)
          \<and> last_assistant_item (snd (send_to_twilio_body s (Some (JObj response)))) = item_id)
       \<and> snd (send_to_twilio_begin s (Some (JObj response))) = Media_sent response
       \<and> (\<not> py_eq item_id (last_assistant_item s1) \<longrightarrow>
            response_start_timestamp_twilio (fst (after (resume s1 (Media_sent response))))
              = Some (latest_media_timestamp s1)
          \<and> last_assistant_item (fst (after (resume s1 (Media_sent response)))) = item_id)"
proof -
  have a: "\<not> py_eq item_id (last_assistant_item s) \<longrightarrow>
            fst (send_to_twilio_body s (Some (JObj response))) = None
          \<and> response_start_timestamp_twilio (snd (send_to_twilio_body s (Some (JObj response))))
              = Some (latest_media_timestamp s)
          \<and> last_assistant_item (snd (send_to_twilio_body s (Some (JObj response)))) = item_id"
    using assms
    by (simp add: send_to_twilio_body_def handle_audio_delta_def send_mark_def
        websocket_send_json_def Let_def)
  have b: "snd (send_to_twilio_begin s (Some (JObj response))) = Media_sent response"
    using assms
    by (simp add: send_to_twilio_begin_def handle_audio_delta_begin_def websocket_send_json_def
        waits_at_def Let_def)
  have c: "\<not> py_eq item_id (last_assistant_item s1) \<longrightarrow>
            response_start_timestamp_twilio (fst (after (resume s1 (Media_sent response))))
              = Some (latest_media_timestamp s1)
          \<and> last_assistant_item (fst (after (resume s1 (Media_sent response)))) = item_id"
    using assms(6,7)
    by (simp add: handle_audio_delta_resume_def send_mark_begin_def websocket_send_json_def
        waits_at_def Let_def)
  from a b c show ?thesis by blast
qed

text \<open>
  C5 at caller time 500, on the first delta of utterance \<^verbatim>\<open>A\<close>, and when the
  caller's audio has moved on to 520 while the media frame was sent.
\<close>

theorem new_item_records_start_witness:
  "b64decode (JStr ''QUJD'') = Inr ''ABC''
   \<and> response_start_timestamp_twilio
        (snd (send_to_twilio_body quiet (Some (JObj (audio_delta (JStr ''QUJD'') (JStr ''A''))))))
       = Some 500
   \<and> last_assistant_item
        (snd (send_to_twilio_body quiet (Some (JObj (audio_delta (JStr ''QUJD'') (JStr ''A''))))))
       = JStr ''A''
   \<and> response_start_timestamp_twilio
        (fst (after (resume (quiet\<lparr>latest_media_timestamp := 520\<rparr>)
           (Media_sent (audio_delta (JStr ''QUJD'') (JStr ''A''))))))
       = Some 520"
proof -
  have d: "b64decode (JStr ''QUJD'') = Inr ''ABC''" by code_simp
  show ?thesis
    using d new_item_records_start [of "audio_delta (JStr ''QUJD'') (JStr ''A'')"
        "JStr ''QUJD''" "''ABC''" quiet "JStr ''A''" "quiet\<lparr>latest_media_timestamp := 520\<rparr>"]
    by (simp add: audio_delta_def quiet_def)
qed

text \<open>
  C5 as the specification states it fails: with \<^verbatim>\<open>stream_sid\<close> known, a delta of
  the new utterance \<^verbatim>\<open>A\<close> whose payload does not decode leaves
  \<^verbatim>\<open>last_assistant_item\<close> and \<^verbatim>\<open>response_start_timestamp_twilio\<close> at \<^verbatim>\<open>None\<close>.
\<close>

theorem new_item_ignored_when_undecodable:
  "truthy (stream_sid quiet)
   \<and> last_assistant_item
        (snd (send_to_twilio_body quiet (Some (JObj (audio_delta (JStr ''QUJDQ'') (JStr ''A''))))))
       = JNull
   \<and> response_start_timestamp_twilio
        (snd (send_to_twilio_body quiet (Some (JObj (audio_delta (JStr ''QUJDQ'') (JStr ''A''))))))
       = None"
proof -
  have d: "b64decode (JStr ''QUJDQ'') = Inl BinasciiError" by code_simp
  show ?thesis
    using d
    by (simp add: send_to_twilio_body_def handle_audio_delta_def audio_delta_def quiet_def Let_def)
qed

lemma delta_payload_reencoded:
  assumes "map_of response ''type'' = Some (JStr ''response.output_audio.delta'')"
    and "map_of response ''delta'' = Some delta"
    and "b64decode delta = Inr decoded"
    and "truthy (stream_sid s)"
    and "application_state (websocket s) = CONNECTED"
  shows "sent_json (websocket (snd (send_to_twilio_body s (Some (JObj response))))) =
           sent_json (websocket s) @
             [JObj [(''event'', JStr ''media''), (''streamSid'', stream_sid s),
                    (''media'', JObj [(''payload'', JStr (b64encode decoded))])],
              JObj [(''event'', JStr ''mark''), (''streamSid'', stream_sid s),
                    (''mark'', JObj [(''name'', JStr ''responsePart'')])]]"
  using assms
  by (simp add: send_to_twilio_body_def handle_audio_delta_def send_mark_def
      websocket_send_json_def Let_def)

text \<open>
  C8, as the code has it.  When the payload of an audio delta is the base64 encoding
  of some bytes (standard alphabet, padded, nothing else in it), \<^verbatim>\<open>stream_sid\<close> is
  known and the caller socket is connected, the media frame written to the caller
  carries that payload unchanged.
\<close>

theorem canonical_payload_unchanged:
  assumes "map_of response ''type'' = Some (JStr ''response.output_audio.delta'')"
    and "map_of response ''delta'' = Some (JStr (b64encode bin))"
    and "truthy (stream_sid s)"
    and "application_state (websocket s) = CONNECTED"
  shows "sent_json (websocket (snd (send_to_twilio_body s (Some (JObj response))))) =
           sent_json (websocket s) @
             [JObj [(''event'', JStr ''media''), (''streamSid'', stream_sid s),
                    (''media'', JObj [(''payload'', JStr (b64encode bin))])],
              JObj [(''event'', JStr ''mark''), (''streamSid'', stream_sid s),
                    (''mark'', JObj [(''name'', JStr ''responsePart'')])]]"
  using delta_payload_reencoded [OF assms(1,2) b64decode_b64encode assms(3,4)] .

text \<open>C8 on the encoding \<^verbatim>\<open>QUJD\<close> of the three bytes \<^verbatim>\<open>ABC\<close>.\<close>

theorem canonical_payload_unchanged_witness:
  "b64encode ''ABC'' = ''QUJD''
   \<and> sent_json (websocket
        (snd (send_to_twilio_body quiet (Some (JObj (audio_delta (JStr ''QUJD'') (JStr ''A'')))))))
     = [JObj [(''event'', JStr ''media''), (''streamSid'', JStr ''MZ1''),
              (''media'', JObj [(''payload'', JStr ''QUJD'')])],
        JObj [(''event'', JStr ''mark''), (''streamSid'', JStr ''MZ1''),
              (''mark'', JObj [(''name'', JStr ''responsePart'')])]]"
proof -
  have e: "b64encode ''ABC'' = ''QUJD''" by code_simp
  show ?thesis
    using e canonical_payload_unchanged [of "audio_delta (JStr ''QUJD'') (JStr ''A'')" "''ABC''"
        quiet]
    by (simp add: audio_delta_def quiet_def)
qed

text \<open>
  C8 as the specification states it fails: the payload \<^verbatim>\<open>QUJD\<close> followed by a line
  feed decodes (the decoder skips what is outside the alphabet), and the frame
  written to the caller carries \<^verbatim>\<open>QUJD\<close> without the line feed.
\<close>

theorem accepted_payload_changed:
  "b64decode (JStr (''QUJD'' @ [CHR 0x0A])) = Inr ''ABC''
   \<and> sent_json (websocket
        (snd (send_to_twilio_body quiet
               (Some (JObj (audio_delta (JStr (''QUJD'' @ [CHR 0x0A])) (JStr ''A'')))))))
     = [JObj [(''event'', JStr ''media''), (''streamSid'', JStr ''MZ1''),
              (''media'', JObj [(''payload'', JStr ''QUJD'')])],
        JObj [(''event'', JStr ''mark''), (''streamSid'', JStr ''MZ1''),
              (''mark'', JObj [(''name'', JStr ''responsePart'')])]]
   \<and> JStr ''QUJD'' \<noteq> JStr (''QUJD'' @ [CHR 0x0A])"
proof -
  have d: "b64decode (JStr (''QUJD'' @ [CHR 0x0A])) = Inr ''ABC''" by code_simp
  have e: "b64encode ''ABC'' = ''QUJD''" by code_simp
  show ?thesis
    using d e
      delta_payload_reencoded [of "audio_delta (JStr (''QUJD'' @ [CHR 0x0A])) (JStr ''A'')"
        "JStr (''QUJD'' @ [CHR 0x0A])" "''ABC''" quiet]
    by (simp add: audio_delta_def quiet_def)
qed


section \<open>Barge-in\<close>

text \<open>
  C1.  When the speech-started event arrives while an utterance is current, the mark
  queue is not empty, the start of the utterance is recorded and the connection to the
  speech service is open, the bridge writes one truncate event to it: its
  \<^verbatim>\<open>item_id\<close> is the current utterance, its \<^verbatim>\<open>content_index\<close> is 0 and its
  \<^verbatim>\<open>audio_end_ms\<close> is \<^verbatim>\<open>latest_media_timestamp\<close> minus the recorded start, both as
  they are when the event arrives.
\<close>

theorem barge_in_truncate:
  assumes "map_of response ''type'' = Some (JStr ''input_audio_buffer.speech_started'')"
    and "truthy (last_assistant_item s)"
    and "mark_queue s \<noteq> []"
    and "response_start_timestamp_twilio s = Some response_start"
    and "openai_ws s = Some w" and "state w = OPEN"
  shows "map_option sent (openai_ws (snd (send_to_twilio_body s (Some (JObj response))))) =
           Some (sent w @
             [JObj [(''type'', JStr ''conversation.item.truncate''),
                    (''item_id'', last_assistant_item s),
                    (''content_index'', JInt 0),
                    (''audio_end_ms'', JInt (latest_media_timestamp s - response_start))]])"
  using assms
  by (simp add: send_to_twilio_body_def handle_speech_started_event_def openai_ws_send_def
      websocket_send_json_def truncate_event_def Let_def)

text \<open>C1 on the bridge \<open>busy\<close>: the utterance began at 500, the caller is at 1800.\<close>

theorem barge_in_truncate_witness:
  "map_option sent (openai_ws (snd (send_to_twilio_body busy (Some (JObj speech_started))))) =
     Some [JObj [(''type'', JStr ''conversation.item.truncate''), (''item_id'', JStr ''A''),
                 (''content_index'', JInt 0), (''audio_end_ms'', JInt 1300)]]"
  using barge_in_truncate [of speech_started busy 500 "\<lparr>state = OPEN, sent = []\<rparr>"]
  by (simp add: speech_started_def busy_def)

text \<open>
  C4.  A speech-started event does nothing at all unless an utterance is current, the
  mark queue is not empty and the start of the utterance is recorded.  When all
  three hold and both sockets take what is written, the truncate event goes to the
  speech service, the clear frame goes to the caller, and the bridge is left with an
  empty mark queue, no current utterance and no recorded start; a \<^verbatim>\<open>mark\<close> frame
  that arrives then changes nothing and raises nothing.
\<close>

theorem barge_in_guard_and_reset:
  assumes "map_of response ''type'' = Some (JStr ''input_audio_buffer.speech_started'')"
  shows "(\<not> (truthy (last_assistant_item s) \<and> mark_queue s \<noteq> []
              \<and> response_start_timestamp_twilio s \<noteq> None)
          \<longrightarrow> send_to_twilio_body s (Some (JObj response)) = (None, s))
       \<and> (truthy (last_assistant_item s) \<and> mark_queue s \<noteq> []
              \<and> response_start_timestamp_twilio s = Some response_start
              \<and> openai_ws s = Some w \<and> state w = OPEN
              \<and> application_state (websocket s) = CONNECTED
          \<longrightarrow> (let s1 = s\<lparr>openai_ws := Some (w\<lparr>sent := sent w @
                               [truncate_event (last_assistant_item s)
                                  (latest_media_timestamp s - response_start)]\<rparr>),
                          websocket := (websocket s)\<lparr>sent_json := sent_json (websocket s) @
                               [JObj [(''event'', JStr ''clear''), (''streamSid'', stream_sid s)]]\<rparr>,
                          mark_queue := [], last_assistant_item := JNull,
                          response_start_timestamp_twilio := None\<rparr>
                in send_to_twilio_body s (Some (JObj response)) = (None, s1)
                 \<and> receive_from_twilio_body int_of_str s1 (Some mark_frame) = (None, s1)))"
  using assms
  by (auto simp add: send_to_twilio_body_def handle_speech_started_event_def openai_ws_send_def
      websocket_send_json_def Let_def receive_from_twilio_body_def mark_frame_def
      split: option.splits)

text \<open>
  C4 on the bridge \<open>quiet\<close>, where no utterance is current, and on the bridge
  \<open>busy\<close>, where the barge-in runs.
\<close>

theorem barge_in_guard_and_reset_witness:
  "send_to_twilio_body quiet (Some (JObj speech_started)) = (None, quiet)
   \<and> send_to_twilio_body busy (Some (JObj speech_started)) =
       (None, busy\<lparr>openai_ws := Some \<lparr>state = OPEN, sent = [truncate_event (JStr ''A'') 1300]\<rparr>,
                    websocket := \<lparr>application_state = CONNECTED,
                       sent_json = [JObj [(''event'', JStr ''clear''), (''streamSid'', JStr ''MZ1'')]]\<rparr>,
                    mark_queue := [], last_assistant_item := JNull,
                    response_start_timestamp_twilio := None\<rparr>)
   \<and> receive_from_twilio_body (\<lambda>x. None)
        (busy\<lparr>openai_ws := Some \<lparr>state = OPEN, sent = [truncate_event (JStr ''A'') 1300]\<rparr>,
              websocket := \<lparr>application_state = CONNECTED,
                 sent_json = [JObj [(''event'', JStr ''clear''), (''streamSid'', JStr ''MZ1'')]]\<rparr>,
              mark_queue := [], last_assistant_item := JNull,
              response_start_timestamp_twilio := None\<rparr>)
        (Some mark_frame) =
       (None, busy\<lparr>openai_ws := Some \<lparr>state = OPEN, sent = [truncate_event (JStr ''A'') 1300]\<rparr>,
                    websocket := \<lparr>application_state = CONNECTED,
                       sent_json = [JObj [(''event'', JStr ''clear''), (''streamSid'', JStr ''MZ1'')]]\<rparr>,
                    mark_queue := [], last_assistant_item := JNull,
                    response_start_timestamp_twilio := None\<rparr>)"
  using barge_in_guard_and_reset [of speech_started quiet 0 "\<lparr>state = OPEN, sent = []\<rparr>" "\<lambda>x. None"]
    barge_in_guard_and_reset [of speech_started busy 500 "\<lparr>state = OPEN, sent = []\<rparr>" "\<lambda>x. None"]
  by (simp add: speech_started_def busy_def quiet_def Let_def)


section \<open>Shutdown\<close>

lemma await_tasks_cancel_returns: "\<exists>r. await_tasks (map cancel ts) = Some r"
proof (induction ts)
  case Nil
  show ?case by simp
next
  case (Cons t ts)
  then obtain r where "await_tasks (map cancel ts) = Some r" by blast
  then show ?case by (cases t; cases r) auto
qed

text \<open>Every task is cancelled before it is awaited, so \<^verbatim>\<open>shutdown\<close> always returns.\<close>

lemma shutdown_returns: "shutdown s \<noteq> None"
proof -
  obtain r where "await_tasks (map cancel (tasks s)) = Some r"
    using await_tasks_cancel_returns by blast
  then show ?thesis
    by (cases r; cases "fst r") (simp_all add: shutdown_def)
qed

lemma await_tasks_no_failure:
  "\<not> list_ex failed ts \<Longrightarrow> \<exists>ts1. await_tasks (map cancel ts) = Some (None, ts1)"
proof (induction ts)
  case Nil
  show ?case by simp
next
  case (Cons t ts)
  then obtain ts1 where "await_tasks (map cancel ts) = Some (None, ts1)" by auto
  with Cons.prems show ?case by (cases t) auto
qed

lemma close_sockets_closes:
  "close_sockets s = (r, s1, conn) \<Longrightarrow>
   r = None \<and> openai_ws s1 = None \<and> application_state (websocket s1) = DISCONNECTED
   \<and> conn = map_option (\<lambda>w. w\<lparr>state := CLOSED\<rparr>) (openai_ws s) \<and> tasks s1 = tasks s"
  by (auto simp add: close_sockets_def openai_ws_close_def websocket_close_def Let_def
      split: option.splits if_splits)

text \<open>
  Where no task has failed (the relays run, have finished, or were cancelled),
  whatever the sockets' states, \<^verbatim>\<open>shutdown\<close> raises nothing, leaves both sockets
  closed, and does so again when it is called a second time.
\<close>

lemma shutdown_without_failure:
  assumes "\<not> list_ex failed (tasks s)"
  shows "\<exists>s1. shutdown s = Some (None, s1, map_option (\<lambda>w. w\<lparr>state := CLOSED\<rparr>) (openai_ws s))
        \<and> tasks s1 = [] \<and> openai_ws s1 = None
        \<and> application_state (websocket s1) = DISCONNECTED
        \<and> shutdown s1 = Some (None, s1, None)"
proof -
  obtain ts1 where a: "await_tasks (map cancel (tasks s)) = Some (None, ts1)"
    using await_tasks_no_failure [OF assms] by blast
  obtain r s1 conn where c: "close_sockets (s\<lparr>tasks := []\<rparr>) = (r, s1, conn)"
    by (cases "close_sockets (s\<lparr>tasks := []\<rparr>)") auto
  note cl = close_sockets_closes [OF c]
  have first: "shutdown s = Some (None, s1, map_option (\<lambda>w. w\<lparr>state := CLOSED\<rparr>) (openai_ws s))"
    using a c cl by (simp add: shutdown_def)
  have "close_sockets (s1\<lparr>tasks := []\<rparr>) = (None, s1, None)"
    using cl by (simp add: close_sockets_def websocket_close_def Let_def)
  then have "shutdown s1 = Some (None, s1, None)"
    using cl by (simp add: shutdown_def)
  with first cl show ?thesis by simp
qed

text \<open>
  C3 does not hold of the code.  A caller frame that is not JSON ends the inbound
  relay with \<^verbatim>\<open>JSONDecodeError\<close>.  On the bridge \<open>relay_failed\<close>, where that has
  happened, \<^verbatim>\<open>await task\<close> raises the exception again and only
  \<^verbatim>\<open>CancelledError\<close> is suppressed: \<^verbatim>\<open>shutdown\<close> raises \<^verbatim>\<open>JSONDecodeError\<close>, the
  connection to the speech service stays open, the caller socket stays connected,
  and a second call does the same.
\<close>

theorem shutdown_raises_after_failed_relay:
  "receive_from_twilio (\<lambda>x. None) busy [None] = (Some JSONDecodeError, busy)
   \<and> shutdown relay_failed =
     Some (Some JSONDecodeError, relay_failed\<lparr>tasks := [Failed JSONDecodeError, Cancelling]\<rparr>,
           Some \<lparr>state = OPEN, sent = []\<rparr>)
   \<and> application_state (websocket (relay_failed\<lparr>tasks := [Failed JSONDecodeError, Cancelling]\<rparr>))
       = CONNECTED
   \<and> shutdown (relay_failed\<lparr>tasks := [Failed JSONDecodeError, Cancelling]\<rparr>) =
     Some (Some JSONDecodeError, relay_failed\<lparr>tasks := [Failed JSONDecodeError, Cancelling]\<rparr>,
           Some \<lparr>state = OPEN, sent = []\<rparr>)"
  by (simp add: shutdown_def relay_failed_def busy_def receive_from_twilio_body_def)

section \<open>The pieces of the outbound handlers\<close>

lemma waits_at_None [simp]: "waits_at (None, s) pc = ((None, s), pc)"
  by (simp add: waits_at_def)

lemma waits_at_Some [simp]: "waits_at (Some e, s) pc = ((Some e, s), Idle)"
  by (simp add: waits_at_def)

lemma uninterrupted_send_mark: "uninterrupted (send_mark_begin s) = (send_mark s, Idle)"
  by (simp add: send_mark_begin_def send_mark_def websocket_send_json_def send_mark_resume_def
      Let_def)

lemma uninterrupted_handle_audio_delta:
  "uninterrupted (uninterrupted (handle_audio_delta_begin s response))
     = (handle_audio_delta s response, Idle)"
  by (simp add: handle_audio_delta_begin_def handle_audio_delta_def websocket_send_json_def
      handle_audio_delta_resume_def uninterrupted_send_mark Let_def split: sum.splits)


lemma uninterrupted_handle_speech_started_event:
  "uninterrupted (uninterrupted (handle_speech_started_event_begin s))
     = (handle_speech_started_event s, Idle)"
  by (auto simp add: handle_speech_started_event_begin_def handle_speech_started_event_def
      send_clear_def handle_speech_started_event_resume_def openai_ws_send_def
      websocket_send_json_def Let_def split: option.splits)

lemma uninterrupted_Idle: "uninterrupted (r, Idle) = (r, Idle)"
  by (cases r; cases "fst r") auto

text \<open>
  Begun and resumed with nothing in between, the pieces are the loop body of
  \<^verbatim>\<open>_send_to_twilio\<close>.
\<close>

lemma uninterrupted_send_to_twilio:
  "uninterrupted (uninterrupted (send_to_twilio_begin s m)) = (send_to_twilio_body s m, Idle)"
proof (cases m)
  case None
  then show ?thesis by (simp add: send_to_twilio_begin_def send_to_twilio_body_def)
next
  case (Some j)
  show ?thesis
  proof (cases j)
    case (JObj response)
    let ?t = "case map_of response ''type'' of None \<Rightarrow> JNull | Some v \<Rightarrow> v"
    consider (delta) "?t = JStr ''response.output_audio.delta'' \<and> map_of response ''delta'' \<noteq> None"
      | (speech) "?t = JStr ''input_audio_buffer.speech_started'' \<and> truthy (last_assistant_item s)"
      | (other) "\<not> (?t = JStr ''response.output_audio.delta'' \<and> map_of response ''delta'' \<noteq> None)"
          "\<not> (?t = JStr ''input_audio_buffer.speech_started'' \<and> truthy (last_assistant_item s))"
      by blast
    then show ?thesis
    proof cases
      case delta
      then have b: "send_to_twilio_body s (Some (JObj response)) = handle_audio_delta s response"
        by (cases "handle_audio_delta s response"; cases "fst (handle_audio_delta s response)")
           (auto simp add: send_to_twilio_body_def Let_def)
      show ?thesis
        using delta Some JObj uninterrupted_handle_audio_delta [of s response]
        by (simp add: send_to_twilio_begin_def b Let_def)
    next
      case speech
      then show ?thesis
        using Some JObj uninterrupted_handle_speech_started_event [of s]
        by (auto simp add: send_to_twilio_begin_def send_to_twilio_body_def Let_def)
    next
      case other
      then show ?thesis
        using Some JObj
        by (auto simp add: send_to_twilio_begin_def send_to_twilio_body_def Let_def)
    qed
  qed (simp_all add: send_to_twilio_begin_def send_to_twilio_body_def Some)
qed


section \<open>The stream identifier on every frame to the caller\<close>

lemma is_clear_clear [simp]: "is_clear (JObj ((''event'', JStr ''clear'') # kvs))"
  by (simp add: is_clear_def)

lemma send_mark_begin_ok: "piece_ok s (Media_sent response) (send_mark_begin s)"
  by (auto simp add: piece_ok_def send_mark_begin_def websocket_send_json_def config_inv_def Let_def)

lemma handle_audio_delta_resume_ok:
  "piece_ok s (Media_sent response) (handle_audio_delta_resume s response)"
  by (auto simp add: piece_ok_def handle_audio_delta_resume_def send_mark_begin_def
      websocket_send_json_def config_inv_def Let_def)

lemma send_mark_resume_ok: "piece_ok s Mark_sent (send_mark_resume s)"
  by (auto simp add: piece_ok_def send_mark_resume_def config_inv_def)

lemma send_clear_ok: "pc = Truncate_sent \<or> truthy (last_assistant_item s) \<Longrightarrow> piece_ok s pc (send_clear s)"
  by (auto simp add: piece_ok_def send_clear_def websocket_send_json_def config_inv_def Let_def)

lemma handle_speech_started_event_resume_ok:
  "piece_ok s Clear_sent (handle_speech_started_event_resume s)"
  by (auto simp add: piece_ok_def handle_speech_started_event_resume_def config_inv_def)

lemma resume_ok: "piece_ok s pc (resume s pc)"
proof (cases pc)
  case Idle
  then show ?thesis by (simp add: piece_ok_def)
next
  case (Media_sent response)
  then show ?thesis using handle_audio_delta_resume_ok by simp
next
  case Mark_sent
  then show ?thesis using send_mark_resume_ok by simp
next
  case Truncate_sent
  then show ?thesis using send_clear_ok by simp
next
  case Clear_sent
  then show ?thesis using handle_speech_started_event_resume_ok by simp
qed

lemma handle_audio_delta_begin_ok: "piece_ok s Idle (handle_audio_delta_begin s response)"
  by (auto simp add: piece_ok_def handle_audio_delta_begin_def websocket_send_json_def
      config_inv_def Let_def split: sum.splits)

lemma handle_speech_started_event_begin_ok:
  "truthy (last_assistant_item s) \<Longrightarrow> piece_ok s Idle (handle_speech_started_event_begin s)"
  by (auto simp add: piece_ok_def handle_speech_started_event_begin_def send_clear_def
      openai_ws_send_def websocket_send_json_def config_inv_def Let_def split: option.splits)

lemma send_to_twilio_begin_ok: "piece_ok s Idle (send_to_twilio_begin s m)"
proof (cases m)
  case None
  then show ?thesis by (simp add: send_to_twilio_begin_def piece_ok_def)
next
  case (Some j)
  show ?thesis
  proof (cases j)
    case (JObj response)
    then show ?thesis
      using Some handle_audio_delta_begin_ok [of s response]
        handle_speech_started_event_begin_ok [of s]
      by (auto simp add: send_to_twilio_begin_def Let_def) (simp_all add: piece_ok_def)
  qed (simp_all add: send_to_twilio_begin_def Some piece_ok_def)
qed


lemma receive_keeps_websocket:
  "websocket (snd (receive_from_twilio_body int_of_str s m)) = websocket s"
  by (simp add: receive_from_twilio_body_def openai_ws_send_def Let_def
      split: option.splits sum.splits)

lemma receive_stream_sid:
  "stream_sid (snd (receive_from_twilio_body int_of_str s m))
     = (case new_stream_sid m of None \<Rightarrow> stream_sid s | Some sid \<Rightarrow> sid)"
  by (simp add: receive_from_twilio_body_def new_stream_sid_def openai_ws_send_def Let_def
      split: option.splits sum.splits)

lemma receive_last_assistant_item:
  "last_assistant_item (snd (receive_from_twilio_body int_of_str s m))
     = (case new_stream_sid m of None \<Rightarrow> last_assistant_item s | Some sid \<Rightarrow> JNull)"
  by (simp add: receive_from_twilio_body_def new_stream_sid_def openai_ws_send_def Let_def
      split: option.splits sum.splits)

lemma new_stream_sid_is_start: "new_stream_sid m = Some sid \<Longrightarrow> is_start (Caller m)"
  by (cases m) (auto simp add: new_stream_sid_def split: if_splits)

lemma piece_step:
  assumes "piece_ok s pc p"
  shows "(\<exists>new. caller_frames (after p) = caller_frames (s, pc) @ new
           \<and> list_all (\<lambda>f. is_clear f \<or> truthy (stream_sid_of f)) new
           \<and> (config_inv (s, pc) \<longrightarrow> list_all (\<lambda>f. truthy (stream_sid_of f)) new))
       \<and> (config_inv (s, pc) \<longrightarrow> config_inv (after p)
             \<and> (truthy (stream_sid s) \<longrightarrow> truthy (stream_sid (fst (after p)))))
       \<and> (calm (s, pc) \<longrightarrow> calm (after p) \<and> caller_frames (after p) = caller_frames (s, pc))"
  using assms by (auto simp add: piece_ok_def caller_frames_def calm_def)

lemma caller_step:
  "(\<exists>new. caller_frames (after (step int_of_str (s, pc) (Caller m))) = caller_frames (s, pc) @ new
           \<and> list_all (\<lambda>f. is_clear f \<or> truthy (stream_sid_of f)) new
           \<and> (config_inv (s, pc) \<and> proper_start (Caller m) \<longrightarrow>
                 list_all (\<lambda>f. truthy (stream_sid_of f)) new))
       \<and> (config_inv (s, pc) \<and> proper_start (Caller m) \<longrightarrow>
             config_inv (after (step int_of_str (s, pc) (Caller m)))
             \<and> (truthy (stream_sid s) \<longrightarrow>
                  truthy (stream_sid (fst (after (step int_of_str (s, pc) (Caller m)))))))
       \<and> (calm (s, pc) \<and> \<not> is_start (Caller m) \<longrightarrow>
             calm (after (step int_of_str (s, pc) (Caller m)))
             \<and> caller_frames (after (step int_of_str (s, pc) (Caller m))) = caller_frames (s, pc))"
proof -
  obtain r s1 where r: "receive_from_twilio_body int_of_str s m = (r, s1)"
    by (cases "receive_from_twilio_body int_of_str s m") auto
  have w: "websocket s1 = websocket s"
    using receive_keeps_websocket [of int_of_str s m] r by simp
  have sid: "stream_sid s1 = (case new_stream_sid m of None \<Rightarrow> stream_sid s | Some sid \<Rightarrow> sid)"
    using receive_stream_sid [of int_of_str s m] r by simp
  have item: "last_assistant_item s1
      = (case new_stream_sid m of None \<Rightarrow> last_assistant_item s | Some sid \<Rightarrow> JNull)"
    using receive_last_assistant_item [of int_of_str s m] r by simp
  have n: "\<not> is_start (Caller m) \<Longrightarrow> new_stream_sid m = None"
    using new_stream_sid_is_start [of m] by (cases "new_stream_sid m") auto
  show ?thesis
    using w sid item n
    by (cases "new_stream_sid m")
       (auto simp add: r caller_frames_def config_inv_def calm_def simp del: is_start.simps)
qed

text \<open>One step, whatever the event.\<close>

lemma step_ok:
  "(\<exists>new. caller_frames (after (step int_of_str c e)) = caller_frames c @ new
           \<and> list_all (\<lambda>f. is_clear f \<or> truthy (stream_sid_of f)) new
           \<and> (config_inv c \<and> proper_start e \<longrightarrow> list_all (\<lambda>f. truthy (stream_sid_of f)) new))
       \<and> (config_inv c \<and> proper_start e \<longrightarrow>
             config_inv (after (step int_of_str c e))
             \<and> (truthy (stream_sid (fst c)) \<longrightarrow>
                  truthy (stream_sid (fst (after (step int_of_str c e))))))
       \<and> (calm c \<and> \<not> is_start e \<longrightarrow>
             calm (after (step int_of_str c e))
             \<and> caller_frames (after (step int_of_str c e)) = caller_frames c)"
proof -
  obtain s pc where c: "c = (s, pc)" by (cases c) auto
  show ?thesis
  proof (cases e)
    case (Caller m)
    then show ?thesis using caller_step [of int_of_str s pc m] c by simp
  next
    case (Speech m)
    show ?thesis
    proof (cases "pc = Idle")
      case True
      then show ?thesis
        using piece_step [OF send_to_twilio_begin_ok, of s m] c Speech by simp
    next
      case False
      then show ?thesis using c Speech by (simp add: caller_frames_def calm_def)
    qed
  next
    case Resume
    then show ?thesis using piece_step [OF resume_ok, of s pc] c by simp
  qed
qed




lemma run_config_inv:
  "config_inv c \<Longrightarrow> list_all proper_start es \<Longrightarrow> config_inv (run int_of_str c es)"
proof (induction es arbitrary: c)
  case Nil
  then show ?case by simp
next
  case (Cons e es)
  from Cons.prems(2) have e: "proper_start e" and es: "list_all proper_start es" by simp_all
  from step_ok [of int_of_str c e] Cons.prems(1) e
  have "config_inv (after (step int_of_str c e))" by blast
  from Cons.IH [OF this es] show ?case by simp
qed


lemma initial_config:
  "config_inv ((init ws)\<lparr>openai_ws := ows\<rparr>, Idle)"
  "calm ((init ws)\<lparr>openai_ws := ows\<rparr>, Idle)"
  "caller_frames ((init ws)\<lparr>openai_ws := ows\<rparr>, Idle) = sent_json ws"
  by (simp_all add: config_inv_def calm_def caller_frames_def init_def)

lemma config_inv_bridge_inv: "config_inv c \<Longrightarrow> bridge_inv (fst c)"
  by (simp add: config_inv_def bridge_inv_def)




text \<open>
  C10, as the code has it.  Let every \<^verbatim>\<open>start\<close> frame carry a stream identifier
  that is set and not empty.  Then at every point the two relays can reach from the
  bridge as \<^verbatim>\<open>__init__\<close> leaves it, taking turns at their \<^verbatim>\<open>await\<close>s in any way:
  while \<^verbatim>\<open>last_assistant_item\<close> is set, \<^verbatim>\<open>stream_sid\<close> is set and not empty; a
  \<^verbatim>\<open>stream_sid\<close> that is set and not empty stays so; and the next step only
  appends to what the caller was sent, and every frame it appends, the clear
  frame of a barge-in among them, carries a \<^verbatim>\<open>streamSid\<close> that is set and not
  empty.
\<close>

theorem utterance_only_with_stream_sid:
  assumes "list_all proper_start es" and "proper_start e"
  shows "bridge_inv (fst (run int_of_str ((init ws)\<lparr>openai_ws := ows\<rparr>, Idle) es))
       \<and> (truthy (stream_sid (fst (run int_of_str ((init ws)\<lparr>openai_ws := ows\<rparr>, Idle) es))) \<longrightarrow>
            truthy (stream_sid (fst (after (step int_of_str
              (run int_of_str ((init ws)\<lparr>openai_ws := ows\<rparr>, Idle) es) e)))))
       \<and> take (length (caller_frames (run int_of_str ((init ws)\<lparr>openai_ws := ows\<rparr>, Idle) es)))
            (caller_frames (after (step int_of_str
              (run int_of_str ((init ws)\<lparr>openai_ws := ows\<rparr>, Idle) es) e)))
           = caller_frames (run int_of_str ((init ws)\<lparr>openai_ws := ows\<rparr>, Idle) es)
       \<and> list_all (\<lambda>f. truthy (stream_sid_of f))
            (drop (length (caller_frames (run int_of_str ((init ws)\<lparr>openai_ws := ows\<rparr>, Idle) es)))
               (caller_frames (after (step int_of_str
                 (run int_of_str ((init ws)\<lparr>openai_ws := ows\<rparr>, Idle) es) e))))"
proof -
  let ?c0 = "((init ws)\<lparr>openai_ws := ows\<rparr>, Idle)"
  let ?c = "run int_of_str ?c0 es"
  have i: "config_inv ?c"
    using run_config_inv [OF initial_config(1) assms(1)] .
  from step_ok [of int_of_str ?c e] i assms(2) obtain new where
    n: "caller_frames (after (step int_of_str ?c e)) = caller_frames ?c @ new"
       "list_all (\<lambda>f. truthy (stream_sid_of f)) new"
    and t: "truthy (stream_sid (fst ?c)) \<longrightarrow> truthy (stream_sid (fst (after (step int_of_str ?c e))))"
    by blast
  from n t config_inv_bridge_inv [OF i] show ?thesis by simp
qed


text \<open>
  C10 on stream \<^verbatim>\<open>MZ1\<close>, at the point where the barge-in on utterance \<^verbatim>\<open>A\<close> has
  sent the truncate event and goes on to write the clear frame.
\<close>

theorem utterance_only_with_stream_sid_witness:
  "list_all proper_start
     [Caller (Some (start_frame (JStr ''MZ1''))),
      Speech (Some (JObj (audio_delta (JStr ''QUJD'') (JStr ''A'')))), Resume, Resume,
      Speech (Some (JObj speech_started))]
   \<and> bridge_inv (fst (run (\<lambda>x. None) fresh
        [Caller (Some (start_frame (JStr ''MZ1''))),
         Speech (Some (JObj (audio_delta (JStr ''QUJD'') (JStr ''A'')))), Resume, Resume,
         Speech (Some (JObj speech_started))]))
   \<and> drop (length (caller_frames (run (\<lambda>x. None) fresh
        [Caller (Some (start_frame (JStr ''MZ1''))),
         Speech (Some (JObj (audio_delta (JStr ''QUJD'') (JStr ''A'')))), Resume, Resume,
         Speech (Some (JObj speech_started))])))
       (caller_frames (after (step (\<lambda>x. None) (run (\<lambda>x. None) fresh
        [Caller (Some (start_frame (JStr ''MZ1''))),
         Speech (Some (JObj (audio_delta (JStr ''QUJD'') (JStr ''A'')))), Resume, Resume,
         Speech (Some (JObj speech_started))]) Resume)))
     = [JObj [(''event'', JStr ''clear''), (''streamSid'', JStr ''MZ1'')]]
   \<and> list_all (\<lambda>f. truthy (stream_sid_of f))
       (drop (length (caller_frames (run (\<lambda>x. None) fresh
        [Caller (Some (start_frame (JStr ''MZ1''))),
         Speech (Some (JObj (audio_delta (JStr ''QUJD'') (JStr ''A'')))), Resume, Resume,
         Speech (Some (JObj speech_started))])))
       (caller_frames (after (step (\<lambda>x. None) (run (\<lambda>x. None) fresh
        [Caller (Some (start_frame (JStr ''MZ1''))),
         Speech (Some (JObj (audio_delta (JStr ''QUJD'') (JStr ''A'')))), Resume, Resume,
         Speech (Some (JObj speech_started))]) Resume))))"
proof -
  let ?ws = "\<lparr>application_state = CONNECTED, sent_json = []\<rparr>"
  let ?ows = "Some \<lparr>state = OPEN, sent = []\<rparr>"
  let ?es = "[Caller (Some (start_frame (JStr ''MZ1''))),
      Speech (Some (JObj (audio_delta (JStr ''QUJD'') (JStr ''A'')))), Resume, Resume,
      Speech (Some (JObj speech_started))]"
  have p: "list_all proper_start ?es"
    by (simp add: new_stream_sid_def start_frame_def)
  have e: "proper_start Resume" by simp
  have w: "drop (length (caller_frames (run (\<lambda>x. None) fresh ?es)))
       (caller_frames (after (step (\<lambda>x. None) (run (\<lambda>x. None) fresh ?es) Resume)))
     = [JObj [(''event'', JStr ''clear''), (''streamSid'', JStr ''MZ1'')]]"
    by code_simp
  note t = utterance_only_with_stream_sid [OF p e, where int_of_str = "\<lambda>x. None"
      and ws = ?ws and ows = ?ows]
  from t
  have i: "bridge_inv (fst (run (\<lambda>x. None) ((init ?ws)\<lparr>openai_ws := ?ows\<rparr>, Idle) ?es))"
    by blast
  from t
  have l: "list_all (\<lambda>f. truthy (stream_sid_of f))
       (drop (length (caller_frames (run (\<lambda>x. None) ((init ?ws)\<lparr>openai_ws := ?ows\<rparr>, Idle) ?es)))
       (caller_frames (after (step (\<lambda>x. None)
          (run (\<lambda>x. None) ((init ?ws)\<lparr>openai_ws := ?ows\<rparr>, Idle) ?es) Resume))))"
    by blast
  show ?thesis
    using p i w l by (simp only: fresh_def)
qed

text \<open>
  C10 as the specification states it fails.  A \<^verbatim>\<open>start\<close> frame whose \<^verbatim>\<open>streamSid\<close>
  is \<^verbatim>\<open>null\<close> puts \<^verbatim>\<open>None\<close> into a \<^verbatim>\<open>stream_sid\<close> that was set.  When such a
  frame arrives while \<^verbatim>\<open>_handle_audio_delta\<close> waits for its media frame to be
  sent, the handler goes on and makes utterance \<^verbatim>\<open>A\<close> current with \<^verbatim>\<open>stream_sid\<close>
  at \<^verbatim>\<open>None\<close>.
\<close>

theorem utterance_without_stream_sid:
  "truthy (stream_sid busy)
   \<and> stream_sid (snd (receive_from_twilio_body (\<lambda>x. None) busy (Some (start_frame JNull)))) = JNull
   \<and> last_assistant_item (fst (run (\<lambda>x. None) fresh
        [Caller (Some (start_frame (JStr ''MZ1''))),
         Speech (Some (JObj (audio_delta (JStr ''QUJD'') (JStr ''A'')))),
         Caller (Some (start_frame JNull)),
         Resume])) = JStr ''A''
   \<and> stream_sid (fst (run (\<lambda>x. None) fresh
        [Caller (Some (start_frame (JStr ''MZ1''))),
         Speech (Some (JObj (audio_delta (JStr ''QUJD'') (JStr ''A'')))),
         Caller (Some (start_frame JNull)),
         Resume])) = JNull"
  by code_simp

end
